theory Spec2Isabelle
  imports Complex_Main "HOL-Library.Sublist" "HOL-Library.AList"
begin

section \<open>JavaScript strings and numbers\<close>

text \<open>
  A JavaScript string is its sequence of UTF-16 code units, so \<open>length\<close> is the
  \<open>.length\<close> of the source and a symbol outside the basic plane counts twice.
  ASCII text is written \<open>u ''...''\<close>; other code units are written as numbers.
\<close>

type_synonym jsstring = "nat list"

abbreviation u :: "string \<Rightarrow> jsstring" where
  "u s \<equiv> map of_char s"

text \<open>
  \<open>String.prototype.toLowerCase\<close>, unit by unit: the ASCII and Latin-1 capitals, and the
  capitals outside Latin-1 whose lower case lies inside it (U+0130, U+0178, U+1E9E, the
  Kelvin and Angstrom signs). Every other code unit is kept as it is: JavaScript maps the
  remaining capitals to letters outside Latin-1, and every phrase this program looks for
  is ASCII.
\<close>

definition lowerUnit :: "nat \<Rightarrow> jsstring" where
  "lowerUnit c =
     (if 65 \<le> c \<and> c \<le> 90 then [c + 32]
      else if 192 \<le> c \<and> c \<le> 222 \<and> c \<noteq> 215 then [c + 32]
      else if c = 304 then [105, 775]
      else if c = 376 then [255]
      else if c = 7838 then [223]
      else if c = 8490 then [107]
      else if c = 8491 then [229]
      else [c])"

definition toLowerCase :: "jsstring \<Rightarrow> jsstring" where
  "toLowerCase s = concat (map lowerUnit s)"

text \<open>\<open>s.includes(w)\<close>: \<open>w\<close> occurs in \<open>s\<close> as a contiguous run of code units.\<close>

definition includesStr :: "jsstring \<Rightarrow> jsstring \<Rightarrow> bool" where
  "includesStr s w = sublist w s"

text \<open>A string is truthy when it is not empty.\<close>

definition truthyStr :: "jsstring option \<Rightarrow> bool" where
  "truthyStr s = (case s of None \<Rightarrow> False | Some t \<Rightarrow> t \<noteq> [])"

text \<open>
  Decimal rendering of an integral number, as \<open>String(n)\<close> and template literals do
  for integers of magnitude below \<open>1e21\<close>.
\<close>

fun natToString :: "nat \<Rightarrow> jsstring" where
  "natToString n = (if n < 10 then [48 + n] else natToString (n div 10) @ [48 + n mod 10])"

declare natToString.simps [simp del]

definition numberToString :: "int \<Rightarrow> jsstring" where
  "numberToString i = (if i < 0 then 45 # natToString (nat (- i)) else natToString (nat i))"

section \<open>Skill router (orchestrator/skill-router.js)\<close>

record skillConfig =
  skill_name :: jsstring
  skill_description :: jsstring
  skill_keywords :: "jsstring list"
  skill_models :: "jsstring list"
  skill_timeout :: int
  skill_handler :: jsstring

text \<open>
  The \<open>skills\<close> object, as the list of its entries in the order \<open>Object.entries\<close>
  yields them: none of the keys is an integer index, so that is the order of the literal.
\<close>

definition skills :: "(jsstring \<times> skillConfig) list" where
  "skills =
    [(u ''web-search'',
      \<lparr>skill_name = u ''Web Search'',
       skill_description = u ''Search the web and fetch information'',
       skill_keywords = [u ''search'', u ''find'', u ''look up'', u ''google'', u ''web'', u ''information''],
       skill_models = [u ''fast'', u ''smart''],
       skill_timeout = 30000,
       skill_handler = u ''./skills/web-search.js''\<rparr>),
     (u ''pr-review'',
      \<lparr>skill_name = u ''PR Reviewer'',
       skill_description = u ''Review pull requests for bugs, security, and quality'',
       skill_keywords = [u ''pr'', u ''pull request'', u ''review'', u ''check code''],
       skill_models = [u ''smart''],
       skill_timeout = 120000,
       skill_handler = u ''./skills/pr-review.js''\<rparr>),
     (u ''code-exec'',
      \<lparr>skill_name = u ''Code Executor'',
       skill_description = u ''Execute code in a Docker sandbox'',
       skill_keywords = [u ''run'', u ''execute'', u ''compile'', u ''test code''],
       skill_models = [u ''fast''],
       skill_timeout = 60000,
       skill_handler = u ''./skills/code-exec.js''\<rparr>),
     (u ''file-ops'',
      \<lparr>skill_name = u ''File Operations'',
       skill_description = u ''Download, upload, and manage files'',
       skill_keywords = [u ''download'', u ''upload'', u ''file'', u ''save'', u ''fetch''],
       skill_models = [u ''fast''],
       skill_timeout = 60000,
       skill_handler = u ''./skills/file-ops.js''\<rparr>),
     (u ''web-scrape'',
      \<lparr>skill_name = u ''Web Scraper'',
       skill_description = u ''Scrape websites for structured data'',
       skill_keywords = [u ''scrape'', u ''extract'', u ''crawl'', u ''parse''],
       skill_models = [u ''smart''],
       skill_timeout = 90000,
       skill_handler = u ''./skills/web-scrape.js''\<rparr>),
     (u ''organize'',
      \<lparr>skill_name = u ''Organizer'',
       skill_description = u ''Organize information, tasks, and data'',
       skill_keywords = [u ''organize'', u ''sort'', u ''categorize'', u ''structure''],
       skill_models = [u ''smart''],
       skill_timeout = 60000,
       skill_handler = u ''./skills/organize.js''\<rparr>),
     (u ''docker-mgr'',
      \<lparr>skill_name = u ''Docker Manager'',
       skill_description = u ''Create and manage Docker containers'',
       skill_keywords = [u ''docker'', u ''container'', u ''deploy'', u ''spin up''],
       skill_models = [u ''smart''],
       skill_timeout = 120000,
       skill_handler = u ''./skills/docker-mgr.js''\<rparr>),
     (u ''tts'',
      \<lparr>skill_name = u ''Text to Speech'',
       skill_description = u ''Convert text to speech'',
       skill_keywords = [u ''speak'', u ''say'', u ''voice'', u ''audio'', u ''tts''],
       skill_models = [u ''fast''],
       skill_timeout = 15000,
       skill_handler = u ''./skills/tts.js''\<rparr>),
     (u ''skill-creator'',
      \<lparr>skill_name = u ''Skill Creator'',
       skill_description = u ''Autonomously create new skills from descriptions'',
       skill_keywords = [u ''create skill'', u ''new skill'', u ''add skill'', u ''make skill'',
                   u ''skill creator''],
       skill_models = [u ''smart''],
       skill_timeout = 120000,
       skill_handler = u ''./skills/skill-creator.js''\<rparr>)]"

text \<open>
  One pass of the inner loop of \<open>detectSkill\<close>: a keyword found in the lowercased text
  adds 1, and the nested test adds the bonus of one half.
\<close>

definition keywordStep :: "jsstring \<Rightarrow> rat \<Rightarrow> jsstring \<Rightarrow> rat" where
  "keywordStep lower score keyword =
     (if includesStr lower keyword
      then (let score1 = score + 1
            in if includesStr lower (toLowerCase keyword) then score1 + 1 / 2 else score1)
      else score)"

definition skillScore :: "jsstring \<Rightarrow> jsstring list \<Rightarrow> rat" where
  "skillScore lower kws = foldl (keywordStep lower) 0 kws"

text \<open>The \<open>scores\<close> object: one entry per skill, in the order of the table.\<close>

definition scoreTable :: "jsstring \<Rightarrow> (jsstring \<times> skillConfig) list \<Rightarrow> (jsstring \<times> rat) list" where
  "scoreTable lower tbl = map (\<lambda>(skillId, skill). (skillId, skillScore lower (skill_keywords skill))) tbl"

text \<open>The second loop: \<open>bestSkill\<close> starts as \<open>null\<close> and \<open>bestScore\<close> as 0.\<close>

definition bestStep :: "jsstring option \<times> rat \<Rightarrow> jsstring \<times> rat \<Rightarrow> jsstring option \<times> rat" where
  "bestStep best entry =
     (case best of (bestSkill, bestScore) \<Rightarrow>
        (case entry of (skillId, score) \<Rightarrow>
           if score > bestScore then (Some skillId, score) else (bestSkill, bestScore)))"

definition findBest :: "(jsstring \<times> rat) list \<Rightarrow> jsstring option \<times> rat" where
  "findBest scores = foldl bestStep (None, 0) scores"

record detection =
  skill :: "jsstring option"
  confidence :: rat

definition detectSkill :: "jsstring \<Rightarrow> detection" where
  "detectSkill message =
     (let lower = toLowerCase message;
          scores = scoreTable lower skills
      in case findBest scores of (bestSkill, bestScore) \<Rightarrow>
           if bestScore > 0 then \<lparr>skill = bestSkill, confidence = bestScore\<rparr>
           else \<lparr>skill = Some (u ''general''), confidence = 0\<rparr>)"

text \<open>\<open>skills[skillId].keywords\<close>, and no keyword at all for an id that is not in the table.\<close>

definition keywordsOf :: "jsstring \<Rightarrow> jsstring list" where
  "keywordsOf skillId = (case map_of skills skillId of None \<Rightarrow> [] | Some s \<Rightarrow> skill_keywords s)"

text \<open>The number of keywords of a list that occur in a text.\<close>

definition matchCount :: "jsstring \<Rightarrow> jsstring list \<Rightarrow> nat" where
  "matchCount lower kws = length (filter (includesStr lower) kws)"

text \<open>The score of the \<open>i\<close>-th skill of the table on a message.\<close>

definition scoreAt :: "jsstring \<Rightarrow> nat \<Rightarrow> rat" where
  "scoreAt message i = skillScore (toLowerCase message) (skill_keywords (snd (skills ! i)))"

section \<open>Model picker (model-picker.js)\<close>

record modelConfig =
  model_name :: jsstring
  model_id :: jsstring
  provider :: jsstring
  glmModel :: jsstring
  maxTokens :: int
  temperature :: rat
  useCase :: jsstring

definition models_fast :: modelConfig where
  "models_fast =
     \<lparr>model_name = u ''Haiku (Fast)'',
      model_id = u ''claude-haiku-4-20250514'',
      provider = u ''glm'',
      glmModel = u ''glm-4.7'',
      maxTokens = 4000,
      temperature = 7 / 10,
      useCase = u ''Simple questions, quick responses, initial analysis''\<rparr>"

definition models_smart :: modelConfig where
  "models_smart =
     \<lparr>model_name = u ''Sonnet (Smart)'',
      model_id = u ''claude-sonnet-4-20250514'',
      provider = u ''glm'',
      glmModel = u ''glm-4.7'',
      maxTokens = 8000,
      temperature = 1 / 2,
      useCase = u ''Complex tasks, code analysis, deep reasoning''\<rparr>"

text \<open>
  The fields of \<open>context\<close> that the picker reads; \<open>None\<close> is a field that is not set,
  for which \<open>context.conversationTurns > 3\<close> is false.
\<close>

record pickerContext =
  conversationTurns :: "int option"
  forceModel :: "jsstring option"

definition analyzeTaskComplexity :: "jsstring \<Rightarrow> pickerContext \<Rightarrow> int" where
  "analyzeTaskComplexity message context =
     (let complexityScore = 0;
          lower = toLowerCase message;
          complexityScore = (if includesStr lower (u ''analyze'') \<or> includesStr lower (u ''analysis'')
                             then complexityScore + 2 else complexityScore);
          complexityScore = (if includesStr lower (u ''review'') \<or> includesStr lower (u ''audit'')
                             then complexityScore + 2 else complexityScore);
          complexityScore = (if includesStr lower (u ''implement'') \<or> includesStr lower (u ''create'')
                             then complexityScore + 2 else complexityScore);
          complexityScore = (if includesStr lower (u ''debug'') \<or> includesStr lower (u ''fix'')
                             then complexityScore + 2 else complexityScore);
          complexityScore = (if includesStr lower (u ''optimize'') \<or> includesStr lower (u ''improve'')
                             then complexityScore + 2 else complexityScore);
          complexityScore = (if includesStr lower (u ''architecture'') \<or> includesStr lower (u ''design'')
                             then complexityScore + 3 else complexityScore);
          complexityScore = (if includesStr lower (u ''code'') \<or> includesStr lower (u ''function'')
                                \<or> includesStr lower (u ''class'')
                             then complexityScore + 1 else complexityScore);
          complexityScore = (if includesStr lower (u ''pr'') \<or> includesStr lower (u ''pull request'')
                             then complexityScore + 2 else complexityScore);
          complexityScore = (if includesStr lower (u ''refactor'')
                             then complexityScore + 2 else complexityScore);
          complexityScore = (if length message > 200 then complexityScore + 1 else complexityScore);
          complexityScore = (if length message > 500 then complexityScore + 2 else complexityScore);
          complexityScore = (if (case conversationTurns context of None \<Rightarrow> False | Some t \<Rightarrow> t > 3)
                             then complexityScore + 1 else complexityScore);
          complexityScore = (if includesStr lower (u ''what is'') \<or> includesStr lower (u ''define'')
                             then complexityScore - 1 else complexityScore);
          complexityScore = (if includesStr lower (u ''list'') \<or> includesStr lower (u ''show me'')
                             then complexityScore - 1 else complexityScore);
          complexityScore = (if length message < 50 then complexityScore - 1 else complexityScore)
      in max 0 complexityScore)"

definition chooseModel :: "jsstring \<Rightarrow> pickerContext \<Rightarrow> modelConfig" where
  "chooseModel message context =
     (let complexity = analyzeTaskComplexity message context;
          threshold = 3
      in if forceModel context = Some (u ''fast'') then models_fast
         else if forceModel context = Some (u ''smart'') then models_smart
         else if complexity \<ge> threshold then models_smart
         else models_fast)"

subsection \<open>The additive rule of the specification\<close>

text \<open>
  The rule as the specification words it: a table of indicator phrase classes with their
  increments, two length thresholds, an increment for a conversation deeper than three
  turns, and penalties for the phrases of a trivial lookup and for a short message.
\<close>

definition indicatorClasses :: "(jsstring list \<times> int) list" where
  "indicatorClasses =
     [([u ''analyze'', u ''analysis''], 2),
      ([u ''review'', u ''audit''], 2),
      ([u ''implement'', u ''create''], 2),
      ([u ''debug'', u ''fix''], 2),
      ([u ''optimize'', u ''improve''], 2),
      ([u ''architecture'', u ''design''], 3),
      ([u ''code'', u ''function'', u ''class''], 1),
      ([u ''pr'', u ''pull request''], 2),
      ([u ''refactor''], 2)]"

definition lookupClasses :: "(jsstring list \<times> int) list" where
  "lookupClasses =
     [([u ''what is'', u ''define''], 1),
      ([u ''list'', u ''show me''], 1)]"

definition classHit :: "jsstring \<Rightarrow> jsstring list \<Rightarrow> bool" where
  "classHit lower phrases = (\<exists>p \<in> set phrases. includesStr lower p)"

definition classScore :: "jsstring \<Rightarrow> (jsstring list \<times> int) list \<Rightarrow> int" where
  "classScore lower classes =
     sum_list (map (\<lambda>(phrases, w). if classHit lower phrases then w else 0) classes)"

definition lengthScore :: "nat \<Rightarrow> int" where
  "lengthScore n = (if n > 200 then 1 else 0) + (if n > 500 then 2 else 0)"

definition depthScore :: "pickerContext \<Rightarrow> int" where
  "depthScore context = (case conversationTurns context of None \<Rightarrow> 0 | Some t \<Rightarrow> if t > 3 then 1 else 0)"

definition shortPenalty :: "nat \<Rightarrow> int" where
  "shortPenalty n = (if n < 50 then 1 else 0)"

definition additiveScore :: "jsstring \<Rightarrow> pickerContext \<Rightarrow> int" where
  "additiveScore message context =
     classScore (toLowerCase message) indicatorClasses + lengthScore (length message)
       + depthScore context
       - classScore (toLowerCase message) lookupClasses - shortPenalty (length message)"

text \<open>
  The indicator phrases of weight 2 or more, and the pieces by which a text is extended
  with them at its end: a phrase, or a phrase after a blank.
\<close>

definition highWeightPhrases :: "jsstring list" where
  "highWeightPhrases =
     [u ''analyze'', u ''analysis'', u ''review'', u ''audit'', u ''implement'', u ''create'',
      u ''debug'', u ''fix'', u ''optimize'', u ''improve'', u ''architecture'', u ''design'',
      u ''pr'', u ''pull request'', u ''refactor'']"

definition extensionPieces :: "jsstring list" where
  "extensionPieces = highWeightPhrases @ map (\<lambda>p. 32 # p) highWeightPhrases"

text \<open>
  The pieces put in front of a text: a phrase and a blank. The blank is a condition of
  its own, which keeps the last letters of the phrase from running into the text.
\<close>

definition leadingPieces :: "jsstring list" where
  "leadingPieces = map (\<lambda>p. p @ [32]) highWeightPhrases"

text \<open>The phrases that lower the score.\<close>

definition lookupPhrases :: "jsstring list" where
  "lookupPhrases = [u ''what is'', u ''define'', u ''list'', u ''show me'']"

section \<open>Metrics collector (bot/metrics-collector.js)\<close>

text \<open>
  A timestamp field holds \<open>null\<close> (\<open>None\<close>) or a clock reading. The truthiness test
  \<open>!x\<close> of the source takes \<open>null\<close> and the number 0 alike for "not set", and
  arithmetic reads \<open>null\<close> as 0.
\<close>

definition truthyNum :: "int option \<Rightarrow> bool" where
  "truthyNum t = (case t of None \<Rightarrow> False | Some v \<Rightarrow> v \<noteq> 0)"

definition numOf :: "int option \<Rightarrow> int" where
  "numOf t = (case t of None \<Rightarrow> 0 | Some v \<Rightarrow> v)"

record explanation =
  chosen :: "jsstring option"
  complexity :: int
  reason :: jsstring

record flow =
  flow_skill :: "jsstring option"
  flow_model :: "jsstring option"
  flow_modelExplanation :: "explanation option"
  flow_complexityScore :: "int option"
  flow_confidence :: "rat option"
  flow_agent :: jsstring
  flow_subAgents :: "jsstring list"
  flow_hasError :: bool
  flow_errorMessage :: "jsstring option"

text \<open>The keys of the \<open>timings\<close> object; a key maps to \<open>None\<close> while it holds \<open>null\<close>.\<close>

definition timingKeys :: "jsstring list" where
  "timingKeys =
     [u ''receivedAt'', u ''fastPathCheck'', u ''acknowledgmentSent'', u ''orchestratorStart'',
      u ''orchestratorEnd'', u ''skillDetection'', u ''modelSelection'', u ''promptBuilding'',
      u ''apiCallStart'', u ''apiCallEnd'', u ''responseFormatStart'', u ''responseFormatEnd'',
      u ''responseSent'']"

record metricsCollector =
  mc_messageId :: int
  mc_userMessage :: jsstring
  timings :: "jsstring \<rightharpoonup> int"
  mc_flow :: flow

text \<open>\<open>mark(event)\<close>; the clock reading \<open>Date.now()\<close> is the argument \<open>now\<close>.\<close>

definition mark :: "metricsCollector \<Rightarrow> jsstring \<Rightarrow> int \<Rightarrow> metricsCollector" where
  "mark mc event now =
     (if event \<in> set timingKeys then mc\<lparr>timings := (timings mc)(event \<mapsto> now)\<rparr> else mc)"

definition newMetricsCollector :: "int \<Rightarrow> jsstring \<Rightarrow> int \<Rightarrow> metricsCollector" where
  "newMetricsCollector messageId userMessage now =
     mark \<lparr>mc_messageId = messageId,
           mc_userMessage = userMessage,
           timings = Map.empty,
           mc_flow = \<lparr>flow_skill = None, flow_model = None, flow_modelExplanation = None,
                      flow_complexityScore = None, flow_confidence = None,
                      flow_agent = u ''orchestrator'', flow_subAgents = [],
                      flow_hasError = False, flow_errorMessage = None\<rparr>\<rparr>
       (u ''receivedAt'') now"

definition markError :: "metricsCollector \<Rightarrow> jsstring \<Rightarrow> metricsCollector" where
  "markError mc message =
     mc\<lparr>mc_flow := (mc_flow mc)\<lparr>flow_hasError := True, flow_errorMessage := Some message\<rparr>\<rparr>"

definition getDuration :: "metricsCollector \<Rightarrow> jsstring \<Rightarrow> jsstring \<Rightarrow> int option" where
  "getDuration mc startEvent endEvent =
     (let startT = timings mc startEvent;
          endT = timings mc endEvent
      in if \<not> truthyNum startT \<or> \<not> truthyNum endT then None
         else Some (numOf endT - numOf startT))"

record breakdown =
  timestamps :: "jsstring \<rightharpoonup> int"
  bd_fastPathCheck :: "int option"
  bd_acknowledgment :: "int option"
  bd_preOrchestrator :: "int option"
  bd_skillDetection :: "int option"
  bd_modelSelection :: "int option"
  bd_promptBuilding :: "int option"
  bd_apiCall :: "int option"
  bd_formatting :: "int option"
  bd_postProcessing :: "int option"
  bd_orchestrator :: "int option"
  bd_total :: int
  bd_flow :: flow

definition getBreakdown :: "metricsCollector \<Rightarrow> int \<Rightarrow> breakdown" where
  "getBreakdown mc now =
     (let fastPathDuration = getDuration mc (u ''receivedAt'') (u ''fastPathCheck'');
          acknowledgmentDuration = getDuration mc (u ''fastPathCheck'') (u ''acknowledgmentSent'');
          preOrchestratorDuration = getDuration mc (u ''acknowledgmentSent'') (u ''orchestratorStart'');
          skillDetectionDuration = getDuration mc (u ''orchestratorStart'') (u ''skillDetection'');
          modelSelectionDuration = getDuration mc (u ''skillDetection'') (u ''modelSelection'');
          promptBuildingDuration = getDuration mc (u ''modelSelection'') (u ''promptBuilding'');
          apiCallDuration = getDuration mc (u ''apiCallStart'') (u ''apiCallEnd'');
          formattingDuration = getDuration mc (u ''responseFormatStart'') (u ''responseFormatEnd'');
          postProcessingDuration = getDuration mc (u ''responseFormatEnd'') (u ''responseSent'');
          totalTime = (if truthyNum (timings mc (u ''responseSent''))
                       then numOf (timings mc (u ''responseSent'')) - numOf (timings mc (u ''receivedAt''))
                       else now - numOf (timings mc (u ''receivedAt'')));
          orchestratorTime = (if truthyNum (timings mc (u ''apiCallEnd''))
                              then Some (numOf (timings mc (u ''apiCallEnd''))
                                           - numOf (timings mc (u ''orchestratorStart'')))
                              else None)
      in \<lparr>timestamps = timings mc,
          bd_fastPathCheck = fastPathDuration,
          bd_acknowledgment = acknowledgmentDuration,
          bd_preOrchestrator = preOrchestratorDuration,
          bd_skillDetection = skillDetectionDuration,
          bd_modelSelection = modelSelectionDuration,
          bd_promptBuilding = promptBuildingDuration,
          bd_apiCall = apiCallDuration,
          bd_formatting = formattingDuration,
          bd_postProcessing = postProcessingDuration,
          bd_orchestrator = orchestratorTime,
          bd_total = totalTime,
          bd_flow = mc_flow mc\<rparr>)"

section \<open>Message metadata store (bot/message-metadata-store.js)\<close>

record promptOption =
  opt_label :: jsstring
  opt_emoji :: jsstring
  opt_action :: jsstring
  opt_description :: "jsstring option"

text \<open>
  A stored record: the fields the bot and the handlers write. A field that is not set is
  \<open>None\<close> (or \<open>False\<close> for a flag).
\<close>

record metadata =
  md_chatId :: int
  md_type :: "jsstring option"
  md_originalMessage :: "jsstring option"
  md_responseText :: "jsstring option"
  md_originalResponse :: "jsstring option"
  md_skill :: "jsstring option"
  md_model :: "jsstring option"
  md_metrics :: "breakdown option"
  md_modelExplanation :: "explanation option"
  md_complexityScore :: "int option"
  md_verbosity :: "jsstring option"
  md_retentionMs :: "int option"
  md_pendingRetry :: bool
  md_forceModel :: "jsstring option"
  md_userFeedback :: "jsstring option"
  md_promptAnswered :: bool
  md_selectedOption :: "promptOption option"
  createdAt :: int
  expiresAt :: int

text \<open>
  The \<open>Map\<close> of the store is the list of its entries in insertion order; its keys are
  the message ids as strings, \<open>String(messageId)\<close>. Message ids are the integers the
  transport assigns.
\<close>

record metadataStore =
  messages :: "(jsstring \<times> metadata) list"
  cleanupIntervalMs :: int
  defaultRetentionMs :: int

definition newMessageMetadataStore :: metadataStore where
  "newMessageMetadataStore = \<lparr>messages = [], cleanupIntervalMs = 3600000, defaultRetentionMs = 3600000\<rparr>"

text \<open>
  \<open>store(messageId, metadata)\<close>. The source reads the clock twice, once for each
  timestamp; \<open>nowCreated\<close> and \<open>nowExpires\<close> are the two readings.
\<close>

definition MessageMetadataStore_store ::
    "metadataStore \<Rightarrow> int \<Rightarrow> metadata \<Rightarrow> int \<Rightarrow> int \<Rightarrow> bool \<times> metadataStore" where
  "MessageMetadataStore_store st messageId md nowCreated nowExpires =
     (if messageId = 0 then (False, st)
      else
        (let rec = md\<lparr>createdAt := nowCreated,
                       expiresAt := nowExpires +
                         (if truthyNum (md_retentionMs md) then numOf (md_retentionMs md)
                          else defaultRetentionMs st)\<rparr>
         in (True, st\<lparr>messages := AList.update (numberToString messageId) rec (messages st)\<rparr>)))"

definition MessageMetadataStore_get ::
    "metadataStore \<Rightarrow> int \<Rightarrow> int \<Rightarrow> metadata option \<times> metadataStore" where
  "MessageMetadataStore_get st messageId now =
     (case map_of (messages st) (numberToString messageId) of
        None \<Rightarrow> (None, st)
      | Some rec \<Rightarrow>
          if now > expiresAt rec
          then (None, st\<lparr>messages := AList.delete (numberToString messageId) (messages st)\<rparr>)
          else (Some rec, st))"

text \<open>
  \<open>update(messageId, updates)\<close>: the partial object \<open>updates\<close> is the function that
  overwrites its fields in a record; the two timestamps of the old record are kept.
\<close>

definition MessageMetadataStore_update ::
    "metadataStore \<Rightarrow> int \<Rightarrow> (metadata \<Rightarrow> metadata) \<Rightarrow> bool \<times> metadataStore" where
  "MessageMetadataStore_update st messageId updates =
     (case map_of (messages st) (numberToString messageId) of
        None \<Rightarrow> (False, st)
      | Some rec \<Rightarrow>
          (True, st\<lparr>messages :=
                     AList.update (numberToString messageId)
                       ((updates rec)\<lparr>createdAt := createdAt rec, expiresAt := expiresAt rec\<rparr>)
                       (messages st)\<rparr>))"

definition MessageMetadataStore_delete :: "metadataStore \<Rightarrow> int \<Rightarrow> bool \<times> metadataStore" where
  "MessageMetadataStore_delete st messageId =
     (map_of (messages st) (numberToString messageId) \<noteq> None,
      st\<lparr>messages := AList.delete (numberToString messageId) (messages st)\<rparr>)"

definition MessageMetadataStore_cleanup ::
    "metadataStore \<Rightarrow> int option \<Rightarrow> int \<Rightarrow> nat \<times> metadataStore" where
  "MessageMetadataStore_cleanup st olderThanMs now =
     (let threshold = (if truthyNum olderThanMs then numOf olderThanMs else defaultRetentionMs st);
          expired = (\<lambda>rec. now - createdAt rec > threshold \<or> now > expiresAt rec)
      in (length (filter (\<lambda>(messageId, rec). expired rec) (messages st)),
          st\<lparr>messages := filter (\<lambda>(messageId, rec). \<not> expired rec) (messages st)\<rparr>))"

text \<open>The threshold of a call of \<open>cleanup\<close>: \<open>olderThanMs || this.defaultRetentionMs\<close>.\<close>

definition cleanupThreshold :: "metadataStore \<Rightarrow> int option \<Rightarrow> int" where
  "cleanupThreshold st olderThanMs =
     (if truthyNum olderThanMs then numOf olderThanMs else defaultRetentionMs st)"

text \<open>
  The store sweeps itself. Its constructor starts a timer (\<open>_startCleanup\<close>) that calls
  \<open>cleanup()\<close> every \<open>cleanupIntervalMs\<close>, and the bot starts a second timer that calls
  \<open>cleanup(3600000)\<close> every hour. \<open>cleanupTimer\<close> and \<open>botCleanupTimer\<close> are one firing of
  each at the clock reading \<open>now\<close>.
\<close>

definition cleanupTimer :: "metadataStore \<Rightarrow> int \<Rightarrow> metadataStore" where
  "cleanupTimer st now = snd (MessageMetadataStore_cleanup st None now)"

definition botCleanupTimer :: "metadataStore \<Rightarrow> int \<Rightarrow> metadataStore" where
  "botCleanupTimer st now = snd (MessageMetadataStore_cleanup st (Some 3600000) now)"

text \<open>
  What happens to the store between two calls of its user: a sequence of calls of
  \<open>cleanup\<close>, each given by its argument and its clock reading.
\<close>

definition sweeps :: "metadataStore \<Rightarrow> (int option \<times> int) list \<Rightarrow> metadataStore" where
  "sweeps st calls =
     foldl (\<lambda>st (olderThanMs, now). snd (MessageMetadataStore_cleanup st olderThanMs now)) st calls"

section \<open>Emoji mappings (bot/emoji-mappings.js)\<close>

text \<open>The symbols of \<open>EMOJI\<close>, each as its UTF-16 code units.\<close>

definition EMOJI_MODEL_HA :: jsstring where "EMOJI_MODEL_HA = [9889]"
definition EMOJI_MODEL_SONNET :: jsstring where "EMOJI_MODEL_SONNET = [55358, 56800]"
definition EMOJI_MODEL_OPUS :: jsstring where "EMOJI_MODEL_OPUS = [55357, 56401]"
definition EMOJI_MODEL_DEFAULT :: jsstring where "EMOJI_MODEL_DEFAULT = [55358, 56598]"

definition EMOJI_STATUS_PROCESSING :: jsstring where "EMOJI_STATUS_PROCESSING = [9203]"
definition EMOJI_STATUS_SUCCESS :: jsstring where "EMOJI_STATUS_SUCCESS = [9989]"
definition EMOJI_STATUS_ERROR :: jsstring where "EMOJI_STATUS_ERROR = [10060]"
definition EMOJI_STATUS_THINKING :: jsstring where "EMOJI_STATUS_THINKING = [55358, 56596]"
definition EMOJI_STATUS_WARNING :: jsstring where "EMOJI_STATUS_WARNING = [9888, 65039]"

definition EMOJI_VERBOSITY_MINIMAL :: jsstring where "EMOJI_VERBOSITY_MINIMAL = [55357, 56583]"
definition EMOJI_VERBOSITY_MEDIUM :: jsstring where "EMOJI_VERBOSITY_MEDIUM = [55357, 56585]"
definition EMOJI_VERBOSITY_FULL :: jsstring where "EMOJI_VERBOSITY_FULL = [55357, 56586]"

definition EMOJI_ACTION_RETRY_SMART :: jsstring where "EMOJI_ACTION_RETRY_SMART = [55358, 56800]"
definition EMOJI_ACTION_EXPLAIN :: jsstring where "EMOJI_ACTION_EXPLAIN = [55358, 56596]"
definition EMOJI_ACTION_METRICS :: jsstring where "EMOJI_ACTION_METRICS = [55357, 56522]"
definition EMOJI_ACTION_YES :: jsstring where "EMOJI_ACTION_YES = [55357, 56397]"
definition EMOJI_ACTION_NO :: jsstring where "EMOJI_ACTION_NO = [55357, 56398]"
definition EMOJI_ACTION_REFRESH :: jsstring where "EMOJI_ACTION_REFRESH = [55357, 56580]"

definition getModelEmoji :: "jsstring option \<Rightarrow> jsstring" where
  "getModelEmoji modelName =
     (case modelName of
        None \<Rightarrow> EMOJI_MODEL_DEFAULT
      | Some n \<Rightarrow>
          if n = [] then EMOJI_MODEL_DEFAULT
          else
            (let lower = toLowerCase n
             in if includesStr lower (u ''haiku'') \<or> includesStr lower (u ''fast'')
                     \<or> includesStr lower (u ''glm-4'') then EMOJI_MODEL_HA
                else if includesStr lower (u ''sonnet'') \<or> includesStr lower (u ''smart'')
                then EMOJI_MODEL_SONNET
                else if includesStr lower (u ''opus'') \<or> includesStr lower (u ''premium'')
                then EMOJI_MODEL_OPUS
                else EMOJI_MODEL_DEFAULT))"

text \<open>An entry \<open>{ type, emoji }\<close> of a reaction list or of a reaction event.\<close>

record reactionType =
  rt_type :: jsstring
  rt_emoji :: "jsstring option"

definition emojiReaction :: "jsstring \<Rightarrow> reactionType" where
  "emojiReaction e = \<lparr>rt_type = u ''emoji'', rt_emoji = Some e\<rparr>"

definition getStatusReaction :: "jsstring option \<Rightarrow> bool \<Rightarrow> reactionType list" where
  "getStatusReaction modelName success =
     [emojiReaction (getModelEmoji modelName),
      emojiReaction (if success then EMOJI_STATUS_SUCCESS else EMOJI_STATUS_ERROR)]"

definition getReactionsForVerbosity :: "jsstring \<Rightarrow> reactionType list" where
  "getReactionsForVerbosity currentVerbosity =
     (let reactions = [];
          reactions = (if currentVerbosity \<noteq> u ''minimal''
                       then reactions @ [emojiReaction EMOJI_VERBOSITY_MINIMAL] else reactions);
          reactions = (if currentVerbosity \<noteq> u ''medium''
                       then reactions @ [emojiReaction EMOJI_VERBOSITY_MEDIUM] else reactions);
          reactions = (if currentVerbosity \<noteq> u ''full''
                       then reactions @ [emojiReaction EMOJI_VERBOSITY_FULL] else reactions)
      in reactions)"

definition getActionReactions :: "reactionType list" where
  "getActionReactions =
     [emojiReaction EMOJI_ACTION_RETRY_SMART, emojiReaction EMOJI_ACTION_EXPLAIN,
      emojiReaction EMOJI_ACTION_METRICS]"

definition getYesNoReactions :: "reactionType list" where
  "getYesNoReactions = [emojiReaction EMOJI_ACTION_YES, emojiReaction EMOJI_ACTION_NO]"

definition isVerbosityEmoji :: "jsstring \<Rightarrow> bool" where
  "isVerbosityEmoji emoji =
     (emoji \<in> set [EMOJI_VERBOSITY_MINIMAL, EMOJI_VERBOSITY_MEDIUM, EMOJI_VERBOSITY_FULL])"

definition isActionEmoji :: "jsstring \<Rightarrow> bool" where
  "isActionEmoji emoji =
     (emoji \<in> set [EMOJI_ACTION_RETRY_SMART, EMOJI_ACTION_EXPLAIN, EMOJI_ACTION_METRICS,
                    EMOJI_ACTION_YES, EMOJI_ACTION_NO, EMOJI_ACTION_REFRESH])"

definition getVerbosityFromEmoji :: "jsstring \<Rightarrow> jsstring option" where
  "getVerbosityFromEmoji emoji =
     (if emoji = EMOJI_VERBOSITY_MINIMAL then Some (u ''minimal'')
      else if emoji = EMOJI_VERBOSITY_MEDIUM then Some (u ''medium'')
      else if emoji = EMOJI_VERBOSITY_FULL then Some (u ''full'')
      else None)"

section \<open>Reaction handler (bot/reaction-handler.js)\<close>

text \<open>What a template prints for an interpolated string: \<open>undefined\<close> prints as that word.\<close>

definition templateStr :: "jsstring option \<Rightarrow> jsstring" where
  "templateStr s = (case s of None \<Rightarrow> u ''undefined'' | Some t \<Rightarrow> t)"

definition segments :: "((breakdown \<Rightarrow> int option) \<times> jsstring) list" where
  "segments =
     [(bd_fastPathCheck, u ''Fast Path Check''),
      (bd_acknowledgment, u ''Acknowledgment''),
      (bd_skillDetection, u ''Skill Detection''),
      (bd_modelSelection, u ''Model Selection''),
      (bd_promptBuilding, u ''Prompt Building''),
      (bd_apiCall, u ''API Call''),
      (bd_formatting, u ''Formatting'')]"

text \<open>One line of the breakdown, behind the branch mark \<open>tee\<close> or \<open>corner\<close>.\<close>

definition segmentLine ::
    "jsstring \<Rightarrow> breakdown \<Rightarrow> (breakdown \<Rightarrow> int option) \<times> jsstring \<Rightarrow> jsstring" where
  "segmentLine branch metricsData s =
     branch @ u '' '' @ snd s @ u '': '' @ numberToString (numOf (fst s metricsData)) @ u ''ms'' @ [10]"

definition formatMetricsDetails :: "breakdown \<Rightarrow> jsstring" where
  "formatMetricsDetails metricsData =
     (let text = [9201, 65039] @ u '' **Timing Breakdown**'' @ [10];
          text = (if bd_total metricsData \<noteq> 0
                  then text @ u ''Total: '' @ numberToString (bd_total metricsData) @ u ''ms'' @ [10]
                  else text);
          segmentsWithValues = filter (\<lambda>s. truthyNum (fst s metricsData)) segments
      in case segmentsWithValues of
           [] \<Rightarrow> text
         | first # rest \<Rightarrow>
             (let text = text @ segmentLine [9500, 9472] metricsData first;
                  text = text @ concat (map (segmentLine [9500, 9472] metricsData) (butlast rest));
                  text = (if rest \<noteq> [] then text @ segmentLine [9492, 9472] metricsData (last rest)
                          else text)
              in text))"

definition formatResponseWithVerbosity ::
    "jsstring option \<Rightarrow> jsstring option \<Rightarrow> jsstring option \<Rightarrow> breakdown option \<Rightarrow>
       explanation option \<Rightarrow> int option \<Rightarrow> jsstring \<Rightarrow> jsstring" where
  "formatResponseWithVerbosity responseText skillId model metricsData modelExplanation
       complexityScore verbosity =
     (let output = [];
          output =
            (if verbosity = u ''full'' \<and> truthyStr skillId \<and> truthyStr model
             then output @ getModelEmoji model @ u '' **'' @ templateStr model @ u ''** | ''
                    @ [55356, 57263] @ u '' **'' @ templateStr skillId @ u ''**'' @ [10, 10]
             else if verbosity = u ''medium'' \<and> truthyStr model
             then (let output = output @ getModelEmoji model @ u '' '' @ templateStr model;
                       output = (if truthyStr skillId then output @ u '' | '' @ templateStr skillId
                                 else output)
                   in output @ [10, 10])
             else output);
          output =
            (case metricsData of
               None \<Rightarrow> output
             | Some m \<Rightarrow>
                 if verbosity = u ''full'' then output @ formatMetricsDetails m @ [10, 10]
                 else if verbosity = u ''medium''
                 then output @ [9201, 65039] @ u '' '' @ numberToString (bd_total m) @ u ''ms'' @ [10, 10]
                 else output);
          output = output @ templateStr responseText;
          output =
            (if verbosity = u ''full''
             then output @ [10, 10, 55357, 56481] @ u '' *Reactions*: ''
                    @ [55357, 56583, 55357, 56585, 55357, 56586] @ u '' verbosity | ''
                    @ [55358, 56800] @ u '' retry smart | '' @ [55358, 56596] @ u '' explain | ''
                    @ [55357, 56522] @ u '' metrics''
             else output)
      in output)"

text \<open>
  The calls the handler issues to the transport, in the order it issues them. Whether a
  call is answered or rejected is the transport's part: a transport is the predicate that
  says which calls it rejects. The handler swallows the rejection of an edit and of a
  reaction update; a rejected \<open>sendMessage\<close> ends the branch, caught by \<open>handleReaction\<close>.
\<close>

datatype botCall =
    EditMessageText int int jsstring
  | SetMessageReaction int int "reactionType list"
  | SendMessage int jsstring "jsstring option"

type_synonym transport = "botCall \<Rightarrow> bool"

record reaction =
  message_id :: int
  user_id :: "int option"
  new_reaction :: "reactionType option"

definition changeVerbosity ::
    "int \<Rightarrow> jsstring \<Rightarrow> metadata \<Rightarrow> metadataStore \<times> botCall list \<Rightarrow> metadataStore \<times> botCall list" where
  "changeVerbosity messageId emoji md state =
     (case state of (st, botLog) \<Rightarrow>
        (case getVerbosityFromEmoji emoji of
           None \<Rightarrow> (st, botLog)
         | Some newVerbosity \<Rightarrow>
             (let newText = formatResponseWithVerbosity
                              (if truthyStr (md_originalResponse md) then md_originalResponse md
                               else md_responseText md)
                              (md_skill md) (md_model md) (md_metrics md) (md_modelExplanation md)
                              (md_complexityScore md) newVerbosity;
                  botLog = botLog @ [EditMessageText (md_chatId md) messageId newText];
                  st = snd (MessageMetadataStore_update st messageId
                              (\<lambda>r. r\<lparr>md_verbosity := Some newVerbosity\<rparr>));
                  verbReactions = getReactionsForVerbosity newVerbosity;
                  botLog = botLog @ [SetMessageReaction (md_chatId md) messageId verbReactions]
              in (st, botLog))))"

definition retryWithSmartModel ::
    "transport \<Rightarrow> int \<Rightarrow> metadata \<Rightarrow> metadataStore \<times> botCall list \<Rightarrow> metadataStore \<times> botCall list" where
  "retryWithSmartModel tr messageId md state =
     (case state of (st, botLog) \<Rightarrow>
        if truthyStr (md_model md) \<and> includesStr (toLowerCase (templateStr (md_model md))) (u ''sonnet'')
        then (st, botLog @ [SendMessage (md_chatId md)
                           ([55358, 56800] @ u '' Already using the smart model (''
                              @ templateStr (md_model md) @ u '').'') None])
        else
          (let indicator = SendMessage (md_chatId md)
                             ([55357, 56580] @ u '' Retrying with smart model...'') None;
               botLog = botLog @ [indicator]
           in if tr indicator then (st, botLog)
              else
                (let st = snd (MessageMetadataStore_update st messageId
                                 (\<lambda>r. r\<lparr>md_pendingRetry := True, md_forceModel := Some (u ''smart'')\<rparr>));
                     botLog = botLog @ [SendMessage (md_chatId md)
                                    ([55357, 56481]
                                       @ u '' *Note*: Full retry support requires orchestrator integration.''
                                       @ [10, 10] @ u ''Please send your message again with '' @ [34]
                                       @ u ''smart model'' @ [34] @ u '' hint if needed.'')
                                    (Some (u ''Markdown''))]
                 in (st, botLog))))"

definition explainReasoning ::
    "int \<Rightarrow> metadata \<Rightarrow> metadataStore \<times> botCall list \<Rightarrow> metadataStore \<times> botCall list" where
  "explainReasoning messageId md state =
     (case state of (st, botLog) \<Rightarrow>
        (let explanation = [55358, 56596] @ u '' **Why this response?**'' @ [10, 10];
             explanation = (if truthyStr (md_skill md)
                            then explanation @ [55356, 57263] @ u '' **Skill**: ''
                                   @ templateStr (md_skill md) @ [10]
                            else explanation);
             explanation = (if truthyStr (md_model md)
                            then explanation @ getModelEmoji (md_model md) @ u '' **Model**: ''
                                   @ templateStr (md_model md) @ [10]
                            else explanation);
             explanation = (case md_complexityScore md of
                              None \<Rightarrow> explanation
                            | Some c \<Rightarrow> explanation @ [55357, 56522] @ u '' **Complexity Score**: ''
                                          @ numberToString c @ u ''/3'' @ [10]);
             explanation = (case md_modelExplanation md of
                              None \<Rightarrow> explanation
                            | Some ex \<Rightarrow> explanation @ [10, 55357, 56493] @ u '' **Reasoning**: ''
                                           @ (if reason ex \<noteq> [] then reason ex else u ''N/A'') @ [10]);
             explanation = explanation @ [10] @ u ''React with '' @ [55357, 56522]
                             @ u '' for detailed timing metrics.''
         in (st, botLog @ [SendMessage (md_chatId md) explanation (Some (u ''Markdown''))])))"

definition showFullMetrics ::
    "int \<Rightarrow> metadata \<Rightarrow> metadataStore \<times> botCall list \<Rightarrow> metadataStore \<times> botCall list" where
  "showFullMetrics messageId md state =
     (case state of (st, botLog) \<Rightarrow>
        (let message = [55357, 56522] @ u '' **Detailed Metrics**'' @ [10, 10];
             message = (if truthyStr (md_skill md)
                        then message @ [55356, 57263] @ u '' Skill: '' @ templateStr (md_skill md) @ [10]
                        else message);
             message = (if truthyStr (md_model md)
                        then message @ getModelEmoji (md_model md) @ u '' Model: ''
                               @ templateStr (md_model md) @ [10]
                        else message);
             message = message @ [10];
             message = (case md_metrics md of
                          Some m \<Rightarrow> message @ formatMetricsDetails m
                        | None \<Rightarrow> message @ u ''No detailed metrics available for this message.'')
         in (st, botLog @ [SendMessage (md_chatId md) message (Some (u ''Markdown''))])))"

definition handleUserFeedback ::
    "transport \<Rightarrow> jsstring \<Rightarrow> int \<Rightarrow> metadata \<Rightarrow> metadataStore \<times> botCall list \<Rightarrow>
       metadataStore \<times> botCall list" where
  "handleUserFeedback tr emoji messageId md state =
     (case state of (st, botLog) \<Rightarrow>
        (let thanks =
               (if emoji = EMOJI_ACTION_YES
                then SendMessage (md_chatId md) ([9989] @ u '' Thanks for the feedback!'') None
                else SendMessage (md_chatId md)
                       ([55357, 56541] @ u '' Thanks for the feedback! You can react with ''
                          @ [55358, 56800] @ u '' to retry with a smarter model.'') None);
             botLog = botLog @ [thanks]
         in if tr thanks then (st, botLog)
            else (snd (MessageMetadataStore_update st messageId
                         (\<lambda>r. r\<lparr>md_userFeedback := Some emoji\<rparr>)), botLog)))"

text \<open>
  \<open>handleReaction(reaction, metadataStore, bot)\<close> at clock reading \<open>now\<close>, on the pair
  of the store and the calls issued so far.
\<close>

definition handleReaction ::
    "transport \<Rightarrow> reaction \<Rightarrow> metadataStore \<times> botCall list \<Rightarrow> int \<Rightarrow> metadataStore \<times> botCall list" where
  "handleReaction tr r state now =
     (case state of (st, botLog) \<Rightarrow>
        (let emoji = (case new_reaction r of
                        None \<Rightarrow> None
                      | Some nr \<Rightarrow> if rt_type nr = u ''emoji'' then rt_emoji nr else None)
         in case emoji of
              None \<Rightarrow> (st, botLog)
            | Some e \<Rightarrow>
                if e = [] then (st, botLog)
                else
                  (case MessageMetadataStore_get st (message_id r) now of
                     (None, st) \<Rightarrow> (st, botLog)
                   | (Some md, st) \<Rightarrow>
                       if isVerbosityEmoji e then changeVerbosity (message_id r) e md (st, botLog)
                       else if e = EMOJI_ACTION_RETRY_SMART
                       then retryWithSmartModel tr (message_id r) md (st, botLog)
                       else if e = EMOJI_ACTION_EXPLAIN
                       then explainReasoning (message_id r) md (st, botLog)
                       else if e = EMOJI_ACTION_METRICS
                       then showFullMetrics (message_id r) md (st, botLog)
                       else if e = EMOJI_ACTION_YES \<or> e = EMOJI_ACTION_NO
                       then handleUserFeedback tr e (message_id r) md (st, botLog)
                       else (st, botLog))))"

text \<open>
  What the handler leaves behind for a message: the text of the last edit it issued for
  it, and the verbosity that a lookup of its record at time \<open>now\<close> finds.
\<close>

definition editsOf :: "botCall list \<Rightarrow> int \<Rightarrow> jsstring list" where
  "editsOf botLog messageId =
     concat (map (\<lambda>c. case c of EditMessageText chat mid txt \<Rightarrow> if mid = messageId then [txt] else []
                           | _ \<Rightarrow> []) botLog)"

definition renderedContent :: "botCall list \<Rightarrow> int \<Rightarrow> jsstring option" where
  "renderedContent botLog messageId =
     (case rev (editsOf botLog messageId) of [] \<Rightarrow> None | txt # _ \<Rightarrow> Some txt)"

definition storedVerbosity :: "metadataStore \<Rightarrow> int \<Rightarrow> int \<Rightarrow> jsstring option" where
  "storedVerbosity st messageId now =
     (case fst (MessageMetadataStore_get st messageId now) of
        None \<Rightarrow> None
      | Some rec \<Rightarrow> md_verbosity rec)"

text \<open>The two headers of \<open>formatResponseWithVerbosity\<close>, each as a function of its own.\<close>

definition header_medium :: "jsstring option \<Rightarrow> jsstring option \<Rightarrow> jsstring" where
  "header_medium s m =
     (if truthyStr m
      then getModelEmoji m @ u '' '' @ templateStr m
             @ (if truthyStr s then u '' | '' @ templateStr s else []) @ [10, 10]
      else [])"

definition header_full :: "jsstring option \<Rightarrow> jsstring option \<Rightarrow> jsstring" where
  "header_full s m =
     (if truthyStr s \<and> truthyStr m
      then getModelEmoji m @ u '' **'' @ templateStr m @ u ''** | '' @ [55356, 57263] @ u '' **''
             @ templateStr s @ u ''**'' @ [10, 10]
      else [])"

text \<open>A reaction event that carries one of the three verbosity symbols.\<close>

definition isVerbosityEvent :: "reaction \<Rightarrow> bool" where
  "isVerbosityEvent r =
     (case new_reaction r of
        None \<Rightarrow> False
      | Some nr \<Rightarrow>
          rt_type nr = u ''emoji'' \<and>
          (case rt_emoji nr of None \<Rightarrow> False | Some e \<Rightarrow> isVerbosityEmoji e))"

text \<open>The text that \<open>changeVerbosity\<close> renders from a record at a verbosity.\<close>

definition renderText :: "metadata \<Rightarrow> jsstring \<Rightarrow> jsstring" where
  "renderText md verbosity =
     formatResponseWithVerbosity
       (if truthyStr (md_originalResponse md) then md_originalResponse md else md_responseText md)
       (md_skill md) (md_model md) (md_metrics md) (md_modelExplanation md)
       (md_complexityScore md) verbosity"

section \<open>Orchestrator and message handler (orchestrator/main.js, bot/index.js)\<close>

text \<open>
  \<open>explainChoice(message, chosenModel)\<close> of the model picker; \<open>chosenName\<close> is what
  \<open>chosenModel.name\<close> evaluates to. The score is taken with the default context.
\<close>

definition explainChoice :: "jsstring \<Rightarrow> jsstring option \<Rightarrow> explanation" where
  "explainChoice message chosenName =
     (let complexity = analyzeTaskComplexity message \<lparr>conversationTurns = None, forceModel = None\<rparr>
      in \<lparr>chosen = chosenName,
          complexity = complexity,
          reason = (if complexity \<ge> 3 then u ''Task requires deep analysis and reasoning''
                    else u ''Quick response sufficient for this task'')\<rparr>)"

text \<open>
  The object that \<open>orchestrate\<close> returns, without its execution time, the raw result of
  the call and the confidence of the skill. A field that the object does not have is
  \<open>None\<close>.
\<close>

record orchestrateResult =
  res_success :: bool
  res_skill :: "jsstring option"
  res_model :: "jsstring option"
  res_error :: "jsstring option"
  res_modelExplanation :: "explanation option"

text \<open>
  \<open>orchestrate(userMessage, context, metrics)\<close>. Building the prompt and calling the proxy
  are not part of this model: \<open>thrown\<close> is the message of the error that they throw, or
  \<open>None\<close> when they return. The object returned has a skill and a model when nothing
  was thrown, and neither of them otherwise. \<open>orchestrate\<close> hands the name of the model
  to \<open>explainChoice\<close>, and the name of a string is \<open>undefined\<close>.
\<close>

definition orchestrate :: "jsstring \<Rightarrow> pickerContext \<Rightarrow> jsstring option \<Rightarrow> orchestrateResult" where
  "orchestrate userMessage context thrown =
     (let skillDetection = detectSkill userMessage;
          skillId = skill skillDetection;
          modelChoice = chooseModel userMessage context;
          modelExplanation = explainChoice userMessage None
      in case thrown of
           None \<Rightarrow>
             \<lparr>res_success = True, res_skill = skillId, res_model = Some (model_name modelChoice),
              res_error = None, res_modelExplanation = Some modelExplanation\<rparr>
         | Some message \<Rightarrow>
             \<lparr>res_success = False, res_skill = None, res_model = None,
              res_error = Some message, res_modelExplanation = None\<rparr>)"

text \<open>
  The record that the message handler of the bot hands to \<open>store\<close> after it has sent a
  response: the only call of \<open>store\<close> that writes a skill and a model. The two timestamps
  are set by \<open>store\<close>.
\<close>

definition botResponseMetadata ::
    "int \<Rightarrow> jsstring \<Rightarrow> jsstring \<Rightarrow> orchestrateResult \<Rightarrow> breakdown \<Rightarrow> metadata" where
  "botResponseMetadata chatId message responseText result metricsBreakdown =
     \<lparr>md_chatId = chatId,
      md_type = Some (u ''bot-response''),
      md_originalMessage = Some message,
      md_responseText = Some (take 4000 responseText),
      md_originalResponse = None,
      md_skill = res_skill result,
      md_model = res_model result,
      md_metrics = Some metricsBreakdown,
      md_modelExplanation = res_modelExplanation result,
      md_complexityScore = map_option complexity (res_modelExplanation result),
      md_verbosity = Some (u ''medium''),
      md_retentionMs = None,
      md_pendingRetry = False,
      md_forceModel = None,
      md_userFeedback = None,
      md_promptAnswered = False,
      md_selectedOption = None,
      createdAt = 0,
      expiresAt = 0\<rparr>"

section \<open>User prompt handler (bot/user-prompt-handler.js)\<close>

record promptContext =
  ctx_timeout :: "int option"

record promptData =
  pd_chatId :: int
  pd_question :: jsstring
  pd_options :: "promptOption list"
  pd_createdAt :: int
  pd_expiresAt :: int
  pd_context :: promptContext

text \<open>
  The handler's own state; its \<open>Map\<close> of pending prompts is the list of its entries. The
  metadata store it refers to is passed along with it.
\<close>

record userPromptHandler =
  pendingPrompts :: "(jsstring \<times> promptData) list"
  defaultTimeout :: int




definition UserPromptHandler_isPendingPrompt :: "userPromptHandler \<Rightarrow> int \<Rightarrow> bool" where
  "UserPromptHandler_isPendingPrompt h messageId =
     (map_of (pendingPrompts h) (numberToString messageId) \<noteq> None)"

definition UserPromptHandler_cancelPrompt :: "userPromptHandler \<Rightarrow> int \<Rightarrow> bool \<times> userPromptHandler" where
  "UserPromptHandler_cancelPrompt h messageId =
     (case map_of (pendingPrompts h) (numberToString messageId) of
        None \<Rightarrow> (False, h)
      | Some promptData \<Rightarrow>
          (True, h\<lparr>pendingPrompts := AList.delete (numberToString messageId) (pendingPrompts h)\<rparr>))"


section \<open>Session store (storage/session-store.js)\<close>

text \<open>
  A key of the \<open>Map\<close> of sessions is what the caller passes: the bot passes the
  chat id, a number; the keys read back from the file are strings. A \<open>Map\<close> tells a
  number from the string of its digits.
\<close>

datatype userId = NumId int | StrId jsstring

text \<open>\<open>String(userId)\<close>, the property name under which a key is written.\<close>

definition propertyName :: "userId \<Rightarrow> jsstring" where
  "propertyName k = (case k of NumId n \<Rightarrow> numberToString n | StrId s \<Rightarrow> s)"

record turn =
  role :: jsstring
  content :: jsstring
  timestamp :: jsstring

text \<open>A session object; a field that is not set is \<open>None\<close>.\<close>

record sessionData =
  history :: "turn list option"
  session_context :: "(jsstring \<times> jsstring) list option"
  turnCount :: "int option"
  lastActive :: "jsstring option"

text \<open>
  The two files. A file is missing (\<open>None\<close>) or holds a text. \<open>Garbled\<close> is a text that
  \<open>JSON.parse\<close> rejects, \<open>JsonNull\<close> the text \<open>null\<close>. Any other text parses to a value
  that \<open>Object.entries\<close> accepts, and is given by the properties of that value in the
  order of the text; a property whose value is \<open>null\<close> is \<open>None\<close>. The flags say whether
  reading and writing are permitted.
\<close>

datatype fileContent = Garbled | JsonNull | JsonObject "(jsstring \<times> sessionData option) list"

record fileSystem =
  sessionFile :: "fileContent option"
  backupFile :: "fileContent option"
  readable :: bool
  writable :: bool

record sessionStore =
  sessionsCache :: "(userId \<times> sessionData) list"
  lastSaveTime :: int

text \<open>
  What the two functions throw. The table of sessions is a variable of the module, so a
  throw leaves a state behind: a failing call returns the error with that state.
\<close>

datatype storeError = ReadError | ParseError | TypeError | WriteError

text \<open>
  The order in which an object lists its own properties: the array indices first, in
  ascending order, then the other names in the order of their creation. An array index
  is the canonical decimal string of a number below \<open>2^32 - 1\<close>.
\<close>

definition parseNat :: "jsstring \<Rightarrow> nat" where
  "parseNat s = foldl (\<lambda>a c. 10 * a + (c - 48)) 0 s"

definition isArrayIndex :: "jsstring \<Rightarrow> bool" where
  "isArrayIndex s =
     (case s of
        [] \<Rightarrow> False
      | c # cs \<Rightarrow>
          (\<forall>d \<in> set s. 48 \<le> d \<and> d \<le> 57) \<and> (c \<noteq> 48 \<or> cs = []) \<and> parseNat s < 4294967295)"

definition ownEntries :: "(jsstring \<times> 'a) list \<Rightarrow> (jsstring \<times> 'a) list" where
  "ownEntries obj =
     sort_key (\<lambda>p. parseNat (fst p)) (filter (\<lambda>p. isArrayIndex (fst p)) obj)
       @ filter (\<lambda>p. \<not> isArrayIndex (fst p)) obj"

text \<open>
  The loop of \<open>saveSessions\<close> that copies the \<open>Map\<close> into a plain object. An
  assignment to the name \<open>__proto__\<close> sets the prototype of the object and creates no
  property.
\<close>

definition toPlainObject :: "(userId \<times> sessionData) list \<Rightarrow> (jsstring \<times> sessionData) list" where
  "toPlainObject cache =
     foldl (\<lambda>plainObject (userId, sessionData).
              if propertyName userId = u ''__proto__'' then plainObject
              else AList.update (propertyName userId) sessionData plainObject)
       [] cache"

text \<open>
  \<open>saveSessions\<close>: the backup copy may fail, which is only logged; a failed write is
  thrown again. \<open>now\<close> is the clock reading for \<open>lastSaveTime\<close>.
\<close>

definition saveSessions ::
    "sessionStore \<times> fileSystem \<Rightarrow> int
       \<Rightarrow> storeError \<times> (sessionStore \<times> fileSystem) + (sessionStore \<times> fileSystem)" where
  "saveSessions state now =
     (case state of (store, fs) \<Rightarrow>
        (let fs = (if sessionFile fs \<noteq> None \<and> readable fs \<and> writable fs
                   then fs\<lparr>backupFile := sessionFile fs\<rparr> else fs);
             plainObject = toPlainObject (sessionsCache store);
             json = JsonObject (map (\<lambda>(userId, sessionData). (userId, Some sessionData))
                                 (ownEntries plainObject))
         in if writable fs
            then Inr (store\<lparr>lastSaveTime := now\<rparr>, fs\<lparr>sessionFile := Some json\<rparr>)
            else Inl (WriteError, (store, fs))))"

text \<open>One entry of the file, as \<open>loadSessions\<close> puts it into the \<open>Map\<close>.\<close>

definition restoreSession :: "jsstring \<Rightarrow> sessionData \<Rightarrow> sessionData" where
  "restoreSession nowIso sessionData =
     \<lparr>history = Some (case history sessionData of None \<Rightarrow> [] | Some h \<Rightarrow> h),
      session_context = Some (case session_context sessionData of None \<Rightarrow> [] | Some c \<Rightarrow> c),
      turnCount = Some (if truthyNum (turnCount sessionData) then numOf (turnCount sessionData) else 0),
      lastActive = Some (if truthyStr (lastActive sessionData) then templateStr (lastActive sessionData)
                         else nowIso)\<rparr>"

text \<open>
  The loop of \<open>loadSessions\<close> over the entries of the parsed value. It puts one session
  after the other into the table and stops at an entry that is \<open>null\<close>, where reading
  \<open>sessionData.history\<close> throws; the flag says whether the loop came to its end.
\<close>

fun restoreEntries ::
    "jsstring \<Rightarrow> (userId \<times> sessionData) list \<Rightarrow> (jsstring \<times> sessionData option) list
       \<Rightarrow> (userId \<times> sessionData) list \<times> bool" where
  "restoreEntries nowIso cache [] = (cache, True)"
| "restoreEntries nowIso cache ((userId, None) # entries) = (cache, False)"
| "restoreEntries nowIso cache ((userId, Some sessionData) # entries) =
     restoreEntries nowIso (AList.update (StrId userId) (restoreSession nowIso sessionData) cache) entries"

text \<open>
  \<open>loadSessions\<close>: a missing file gives an empty table. A file that cannot be read, or
  whose text does not parse, is thrown before the table is touched. After the text has
  parsed the table is replaced by an empty one, and then filled: the value \<open>null\<close> is
  thrown by \<open>Object.entries\<close> and leaves the table empty, an entry that is \<open>null\<close> is
  thrown by the loop and leaves the table with the entries before it.
  \<open>nowIso\<close> is \<open>new Date().toISOString()\<close>.
\<close>

definition loadSessions ::
    "sessionStore \<times> fileSystem \<Rightarrow> jsstring
       \<Rightarrow> storeError \<times> (sessionStore \<times> fileSystem) + (sessionStore \<times> fileSystem)" where
  "loadSessions state nowIso =
     (case state of (store, fs) \<Rightarrow>
        (case sessionFile fs of
           None \<Rightarrow> Inr (store\<lparr>sessionsCache := []\<rparr>, fs)
         | Some file \<Rightarrow>
             if \<not> readable fs then Inl (ReadError, (store, fs))
             else
               (case file of
                  Garbled \<Rightarrow> Inl (ParseError, (store, fs))
                | JsonNull \<Rightarrow> Inl (TypeError, (store\<lparr>sessionsCache := []\<rparr>, fs))
                | JsonObject parsed \<Rightarrow>
                    (case restoreEntries nowIso [] (ownEntries parsed) of
                       (cache, True) \<Rightarrow> Inr (store\<lparr>sessionsCache := cache\<rparr>, fs)
                     | (cache, False) \<Rightarrow> Inl (TypeError, (store\<lparr>sessionsCache := cache\<rparr>, fs))))))"

definition getSession :: "sessionStore \<Rightarrow> userId \<Rightarrow> sessionData option" where
  "getSession store userId = map_of (sessionsCache store) userId"

definition setSession :: "sessionStore \<Rightarrow> userId \<Rightarrow> sessionData \<Rightarrow> jsstring \<Rightarrow> sessionStore" where
  "setSession store userId sessionData nowIso =
     store\<lparr>sessionsCache := AList.update userId (sessionData\<lparr>lastActive := Some nowIso\<rparr>)
                                (sessionsCache store)\<rparr>"

definition deleteSession :: "sessionStore \<Rightarrow> userId \<Rightarrow> bool \<times> sessionStore" where
  "deleteSession store userId =
     (map_of (sessionsCache store) userId \<noteq> None,
      store\<lparr>sessionsCache := AList.delete userId (sessionsCache store)\<rparr>)"

text \<open>Saving and then loading again, as a restart of the bot does.\<close>

definition saveThenLoad ::
    "sessionStore \<times> fileSystem \<Rightarrow> int \<Rightarrow> jsstring
       \<Rightarrow> storeError \<times> (sessionStore \<times> fileSystem) + (sessionStore \<times> fileSystem)" where
  "saveThenLoad state now nowIso =
     (case saveSessions state now of Inl e \<Rightarrow> Inl e | Inr saved \<Rightarrow> loadSessions saved nowIso)"

text \<open>A record as the bot stores it after an answer.\<close>

definition exampleMetadata :: metadata where
  "exampleMetadata =
     \<lparr>md_chatId = 7,
      md_type = Some (u ''bot-response''),
      md_originalMessage = Some (u ''review this pull request''),
      md_responseText = Some (u ''Looks good.''),
      md_originalResponse = None,
      md_skill = Some (u ''pr-review''),
      md_model = Some (u ''Sonnet (Smart)''),
      md_metrics = None,
      md_modelExplanation = None,
      md_complexityScore = Some 3,
      md_verbosity = Some (u ''medium''),
      md_retentionMs = None,
      md_pendingRetry = False,
      md_forceModel = None,
      md_userFeedback = None,
      md_promptAnswered = False,
      md_selectedOption = None,
      createdAt = 0,
      expiresAt = 0\<rparr>"

text \<open>The record that \<open>store\<close> inserts for a record it is given.\<close>

definition storedRecord :: "metadataStore \<Rightarrow> metadata \<Rightarrow> int \<Rightarrow> int \<Rightarrow> metadata" where
  "storedRecord st md nowCreated nowExpires =
     md\<lparr>createdAt := nowCreated,
        expiresAt := nowExpires +
          (if truthyNum (md_retentionMs md) then numOf (md_retentionMs md) else defaultRetentionMs st)\<rparr>"


text \<open>A store that holds the example record for message 42, and a reaction to it.\<close>

definition exampleStore :: metadataStore where
  "exampleStore =
     newMessageMetadataStore\<lparr>messages :=
       [(u ''42'', exampleMetadata\<lparr>createdAt := 1000, expiresAt := 3601001\<rparr>)]\<rparr>"

definition minimalEvent :: reaction where
  "minimalEvent =
     \<lparr>message_id = 42, user_id = Some 7, new_reaction = Some (emojiReaction EMOJI_VERBOSITY_MINIMAL)\<rparr>"

text \<open>The verbosity that a verbosity event asks for.\<close>

definition verbosityOf :: "reaction \<Rightarrow> jsstring" where
  "verbosityOf r =
     (case new_reaction r of
        None \<Rightarrow> []
      | Some nr \<Rightarrow> (case rt_emoji nr of None \<Rightarrow> []
                     | Some e \<Rightarrow> (case getVerbosityFromEmoji e of None \<Rightarrow> [] | Some v \<Rightarrow> v)))"



text \<open>
  The session table after one exchange with the user of chat 12345, keyed as the bot keys
  it, and an empty disk.
\<close>

definition exampleSession :: sessionData where
  "exampleSession =
     \<lparr>history = Some [\<lparr>role = u ''user'', content = u ''hi'', timestamp = u ''2026-01-01T00:00:00.000Z''\<rparr>,
                      \<lparr>role = u ''assistant'', content = u ''hello'',
                       timestamp = u ''2026-01-01T00:00:01.000Z''\<rparr>],
      session_context = Some [],
      turnCount = Some 1,
      lastActive = Some (u ''2026-01-01T00:00:01.000Z'')\<rparr>"

definition exampleSessions :: sessionStore where
  "exampleSessions = \<lparr>sessionsCache = [(NumId 12345, exampleSession)], lastSaveTime = 0\<rparr>"

definition emptyDisk :: fileSystem where
  "emptyDisk = \<lparr>sessionFile = None, backupFile = None, readable = True, writable = True\<rparr>"

section \<open>Properties of the skill router\<close>

lemma skill_ids: "map fst skills = [u ''web-search'', u ''pr-review'', u ''code-exec'', u ''file-ops'', u ''web-scrape'', u ''organize'', u ''docker-mgr'', u ''tts'', u ''skill-creator'']"
  by (simp add: skills_def)

lemma skills_distinct: "distinct (map fst skills)"
  unfolding skill_ids by simp

lemma keywords_lower: "\<forall>e \<in> set skills. \<forall>k \<in> set (skill_keywords (snd e)). toLowerCase k = k"
  by (simp add: skills_def toLowerCase_def lowerUnit_def)

lemma keywordStep_nonneg: "0 \<le> a \<Longrightarrow> 0 \<le> keywordStep lower a k"
  by (simp add: keywordStep_def Let_def)

lemma foldl_keywordStep_nonneg: "0 \<le> a \<Longrightarrow> 0 \<le> foldl (keywordStep lower) a kws"
  by (induction kws arbitrary: a) (simp_all add: keywordStep_nonneg)

lemma skillScore_nonneg: "0 \<le> skillScore lower kws"
  by (simp add: skillScore_def foldl_keywordStep_nonneg)

lemma findBest_fold:
  "foldl bestStep (b0, s0) xs = (b, s) \<Longrightarrow>
     (b = b0 \<and> s = s0 \<and> (\<forall>j < length xs. snd (xs ! j) \<le> s0)) \<or>
     (\<exists>i < length xs. b = Some (fst (xs ! i)) \<and> s = snd (xs ! i) \<and> s0 < s \<and>
        (\<forall>j < length xs. snd (xs ! j) \<le> s) \<and> (\<forall>j < i. snd (xs ! j) < s))"
proof (induction xs arbitrary: b s rule: rev_induct)
  case Nil
  then show ?case by simp
next
  case (snoc x xs)
  obtain b1 s1 where mid: "foldl bestStep (b0, s0) xs = (b1, s1)"
    by (cases "foldl bestStep (b0, s0) xs")
  obtain xi xv where x: "x = (xi, xv)" by (cases x)
  from snoc.prems mid x have "bestStep (b1, s1) (xi, xv) = (b, s)"
    by simp
  then have step: "(if s1 < xv then (Some xi, xv) else (b1, s1)) = (b, s)"
    by (simp add: bestStep_def)
  note IH = snoc.IH [OF mid]
  show ?case
  proof (cases "s1 < xv")
    case True
    with step have bs: "b = Some xi" "s = xv" by simp_all
    have le: "\<forall>j < length xs. snd (xs ! j) \<le> s1" using IH by auto
    have s0s1: "s0 \<le> s1" using IH by auto
    have "\<exists>i < length (xs @ [x]). b = Some (fst ((xs @ [x]) ! i)) \<and> s = snd ((xs @ [x]) ! i) \<and> s0 < s \<and>
        (\<forall>j < length (xs @ [x]). snd ((xs @ [x]) ! j) \<le> s) \<and> (\<forall>j < i. snd ((xs @ [x]) ! j) < s)"
    proof (intro exI [of _ "length xs"] conjI allI impI)
      show "length xs < length (xs @ [x])" by simp
      show "b = Some (fst ((xs @ [x]) ! length xs))" using bs x by simp
      show "s = snd ((xs @ [x]) ! length xs)" using bs x by simp
      show "s0 < s" using s0s1 True bs by simp
      show "snd ((xs @ [x]) ! j) \<le> s" if "j < length (xs @ [x])" for j
      proof (cases "j < length xs")
        case True
        with le have "snd (xs ! j) \<le> s1" by simp
        with True \<open>s1 < xv\<close> bs show ?thesis by (simp add: nth_append)
      next
        case False
        with that have "j = length xs" by simp
        with bs x show ?thesis by simp
      qed
      show "snd ((xs @ [x]) ! j) < s" if "j < length xs" for j
      proof -
        from le that have "snd (xs ! j) \<le> s1" by simp
        with that \<open>s1 < xv\<close> bs show ?thesis by (simp add: nth_append)
      qed
    qed
    then show ?thesis by blast
  next
    case False
    with step have bs: "b = b1" "s = s1" by simp_all
    from False have xle: "xv \<le> s1" by simp
    from IH show ?thesis
    proof
      assume a: "b1 = b0 \<and> s1 = s0 \<and> (\<forall>j<length xs. snd (xs ! j) \<le> s0)"
      have "\<forall>j < length (xs @ [x]). snd ((xs @ [x]) ! j) \<le> s0"
      proof (intro allI impI)
        fix j assume "j < length (xs @ [x])"
        then consider "j < length xs" | "j = length xs" by fastforce
        then show "snd ((xs @ [x]) ! j) \<le> s0"
          using a xle x by cases (simp_all add: nth_append)
      qed
      with a bs show ?thesis by blast
    next
      assume "\<exists>i<length xs. b1 = Some (fst (xs ! i)) \<and> s1 = snd (xs ! i) \<and> s0 < s1 \<and>
        (\<forall>j<length xs. snd (xs ! j) \<le> s1) \<and> (\<forall>j<i. snd (xs ! j) < s1)"
      then obtain i where i: "i < length xs" "b1 = Some (fst (xs ! i))" "s1 = snd (xs ! i)" "s0 < s1"
        "\<forall>j<length xs. snd (xs ! j) \<le> s1" "\<forall>j<i. snd (xs ! j) < s1" by blast
      have "\<exists>i < length (xs @ [x]). b = Some (fst ((xs @ [x]) ! i)) \<and> s = snd ((xs @ [x]) ! i) \<and> s0 < s \<and>
        (\<forall>j < length (xs @ [x]). snd ((xs @ [x]) ! j) \<le> s) \<and> (\<forall>j < i. snd ((xs @ [x]) ! j) < s)"
      proof (intro exI [of _ i] conjI allI impI)
        show "i < length (xs @ [x])" using i by simp
        show "b = Some (fst ((xs @ [x]) ! i))" using i bs by (simp add: nth_append)
        show "s = snd ((xs @ [x]) ! i)" using i bs by (simp add: nth_append)
        show "s0 < s" using i bs by simp
        show "snd ((xs @ [x]) ! j) \<le> s" if "j < length (xs @ [x])" for j
        proof -
          from that consider "j < length xs" | "j = length xs" by fastforce
          then show ?thesis using i(5) xle x bs by cases (simp_all add: nth_append)
        qed
        show "snd ((xs @ [x]) ! j) < s" if "j < i" for j
          using that i bs by (simp add: nth_append)
      qed
      then show ?thesis by blast
    qed
  qed
qed

lemma scoreTable_nth:
  "i < length tbl \<Longrightarrow> scoreTable lower tbl ! i = (fst (tbl ! i), skillScore lower (skill_keywords (snd (tbl ! i))))"
  by (simp add: scoreTable_def case_prod_beta)

lemma length_scoreTable: "length (scoreTable lower tbl) = length tbl"
  by (simp add: scoreTable_def)

text \<open>
  Claim C1. For every message, \<open>detectSkill\<close> returns the skill of the highest keyword
  score with that score as its confidence; among skills that tie for the highest score
  the earliest one of the table wins (every earlier skill scores strictly less); and when
  every skill scores 0 it returns the skill \<open>general\<close> with confidence 0.
\<close>

theorem detectSkill_highest_score:
  "((\<forall>i < length skills. scoreAt message i = 0) \<longrightarrow>
      detectSkill message = \<lparr>skill = Some (u ''general''), confidence = 0\<rparr>) \<and>
   ((\<exists>i < length skills. scoreAt message i \<noteq> 0) \<longrightarrow>
      (\<exists>i < length skills.
         detectSkill message = \<lparr>skill = Some (fst (skills ! i)), confidence = scoreAt message i\<rparr> \<and>
         (\<forall>j < length skills. scoreAt message j \<le> scoreAt message i) \<and>
         (\<forall>j < i. scoreAt message j < scoreAt message i)))"
proof -
  define lower where "lower = toLowerCase message"
  define xs where "xs = scoreTable lower skills"
  obtain b s where fb: "findBest xs = (b, s)" by (cases "findBest xs")
  have len: "length xs = length skills" by (simp add: xs_def length_scoreTable)
  have nth: "snd (xs ! i) = scoreAt message i" "fst (xs ! i) = fst (skills ! i)" if "i < length skills" for i
    using that by (simp_all add: xs_def scoreTable_nth scoreAt_def lower_def)
  have nonneg: "0 \<le> scoreAt message i" for i
    by (simp add: scoreAt_def skillScore_nonneg)
  have res: "detectSkill message =
      (if s > 0 then \<lparr>skill = b, confidence = s\<rparr> else \<lparr>skill = Some (u ''general''), confidence = 0\<rparr>)"
    using fb by (simp add: detectSkill_def Let_def lower_def xs_def)
  from fb have "foldl bestStep (None, 0) xs = (b, s)" by (simp add: findBest_def)
  from findBest_fold [OF this]
  consider (none) "b = None" "s = 0" "\<forall>j < length xs. snd (xs ! j) \<le> 0"
    | (some) i where "i < length xs" "b = Some (fst (xs ! i))" "s = snd (xs ! i)" "0 < s"
        "\<forall>j < length xs. snd (xs ! j) \<le> s" "\<forall>j < i. snd (xs ! j) < s"
    by blast
  then show ?thesis
  proof cases
    case none
    have zero: "scoreAt message j = 0" if "j < length skills" for j
    proof -
      from none(3) that len nth(1) have "scoreAt message j \<le> 0" by simp
      with nonneg [of j] show ?thesis by simp
    qed
    from none res have "detectSkill message = \<lparr>skill = Some (u ''general''), confidence = 0\<rparr>" by simp
    with zero show ?thesis by auto
  next
    case some
    from some(1) len have il: "i < length skills" by simp
    have si: "s = scoreAt message i" using some(3) nth(1) il by simp
    have r: "detectSkill message = \<lparr>skill = Some (fst (skills ! i)), confidence = scoreAt message i\<rparr>"
      using res some(2,4) si nth(2) il by simp
    have m1: "\<forall>j < length skills. scoreAt message j \<le> scoreAt message i"
      using some(5) len nth(1) si by simp
    have m2: "\<forall>j < i. scoreAt message j < scoreAt message i"
    proof (intro allI impI)
      fix j assume "j < i"
      with il have jl: "j < length skills" by simp
      from some(6) \<open>j < i\<close> have "snd (xs ! j) < s" by simp
      with nth(1) [OF jl] si show "scoreAt message j < scoreAt message i" by simp
    qed
    have nz: "scoreAt message i \<noteq> 0" using some(4) si by simp
    from r m1 m2 il nz show ?thesis by blast
  qed
qed


lemma keywordStep_bonus:
  "toLowerCase k = k \<Longrightarrow> keywordStep lower a k = (if includesStr lower k then a + 3 / 2 else a)"
  by (simp add: keywordStep_def Let_def)

lemma foldl_keywordStep_count:
  "\<forall>k \<in> set kws. toLowerCase k = k \<Longrightarrow>
     foldl (keywordStep lower) a kws = a + 3 / 2 * of_nat (matchCount lower kws)"
  by (induction kws arbitrary: a) (simp_all add: keywordStep_bonus matchCount_def algebra_simps)

lemma skillScore_count:
  "\<forall>k \<in> set kws. toLowerCase k = k \<Longrightarrow> skillScore lower kws = 3 / 2 * of_nat (matchCount lower kws)"
  by (simp add: skillScore_def foldl_keywordStep_count)

lemma keywordsOf_nth: "i < length skills \<Longrightarrow> keywordsOf (fst (skills ! i)) = skill_keywords (snd (skills ! i))"
proof -
  assume il: "i < length skills"
  then have "skills ! i \<in> set skills" by simp
  then have "(fst (skills ! i), snd (skills ! i)) \<in> set skills" by simp
  with skills_distinct have "map_of skills (fst (skills ! i)) = Some (snd (skills ! i))"
    by (rule map_of_is_SomeI)
  then show ?thesis by (simp add: keywordsOf_def)
qed

lemma keywordsOf_general: "keywordsOf (u ''general'') = []"
proof -
  have "u ''general'' \<notin> set (map fst skills)" unfolding skill_ids by simp
  then have "map_of skills (u ''general'') = None" by (simp add: map_of_eq_None_iff)
  then show ?thesis by (simp add: keywordsOf_def)
qed

text \<open>
  Claim C10. The confidence returned by \<open>detectSkill\<close> is one and a half times the number
  of keywords of the returned skill that occur in the lowercased message (the skill
  \<open>general\<close> has no keywords), so a confidence other than 0 comes from at least one match
  and is never the plain number of matches.
\<close>

theorem detectSkill_confidence_bonus:
  "(\<forall>e \<in> set skills. \<forall>k \<in> set (skill_keywords (snd e)).
      keywordStep (toLowerCase message) a k
        = (if includesStr (toLowerCase message) k then a + 3 / 2 else a)) \<and>
   (\<exists>sid. skill (detectSkill message) = Some sid \<and>
      confidence (detectSkill message) = 3 / 2 * of_nat (matchCount (toLowerCase message) (keywordsOf sid)) \<and>
      (confidence (detectSkill message) \<noteq> 0 \<longrightarrow>
         0 < matchCount (toLowerCase message) (keywordsOf sid) \<and>
         confidence (detectSkill message) \<noteq> of_nat (matchCount (toLowerCase message) (keywordsOf sid))))"
proof (rule conjI)
  show "\<forall>e \<in> set skills. \<forall>k \<in> set (skill_keywords (snd e)).
      keywordStep (toLowerCase message) a k
        = (if includesStr (toLowerCase message) k then a + 3 / 2 else a)"
    using keywords_lower by (auto simp: keywordStep_bonus)
next
  let ?thesis = "\<exists>sid. skill (detectSkill message) = Some sid \<and>
      confidence (detectSkill message) = 3 / 2 * of_nat (matchCount (toLowerCase message) (keywordsOf sid)) \<and>
      (confidence (detectSkill message) \<noteq> 0 \<longrightarrow>
         0 < matchCount (toLowerCase message) (keywordsOf sid) \<and>
         confidence (detectSkill message) \<noteq> of_nat (matchCount (toLowerCase message) (keywordsOf sid)))"
  define lower where "lower = toLowerCase message"
  define xs where "xs = scoreTable lower skills"
  obtain b s where fb: "findBest xs = (b, s)" by (cases "findBest xs")
  have len: "length xs = length skills" by (simp add: xs_def length_scoreTable)
  have res: "detectSkill message =
      (if s > 0 then \<lparr>skill = b, confidence = s\<rparr> else \<lparr>skill = Some (u ''general''), confidence = 0\<rparr>)"
    using fb by (simp add: detectSkill_def Let_def lower_def xs_def)
  have count: "skillScore lower (skill_keywords (snd (skills ! i))) =
      3 / 2 * of_nat (matchCount lower (keywordsOf (fst (skills ! i))))" if "i < length skills" for i
  proof -
    from that have "skills ! i \<in> set skills" by simp
    with keywords_lower have "\<forall>k \<in> set (skill_keywords (snd (skills ! i))). toLowerCase k = k" by blast
    then show ?thesis by (simp add: skillScore_count keywordsOf_nth [OF that])
  qed
  show ?thesis
  proof (cases "s > 0")
    case False
    with res have d: "detectSkill message = \<lparr>skill = Some (u ''general''), confidence = 0\<rparr>" by simp
    have "matchCount (toLowerCase message) (keywordsOf (u ''general'')) = 0"
      unfolding keywordsOf_general by (simp add: matchCount_def)
    then have "skill (detectSkill message) = Some (u ''general'') \<and>
        confidence (detectSkill message) =
          3 / 2 * of_nat (matchCount (toLowerCase message) (keywordsOf (u ''general''))) \<and>
        (confidence (detectSkill message) \<noteq> 0 \<longrightarrow>
           0 < matchCount (toLowerCase message) (keywordsOf (u ''general'')) \<and>
           confidence (detectSkill message) \<noteq>
             of_nat (matchCount (toLowerCase message) (keywordsOf (u ''general''))))"
      unfolding d by (simp del: list.map)
    then show ?thesis by (rule exI)
  next
    case True
    from fb have "foldl bestStep (None, 0) xs = (b, s)" by (simp add: findBest_def)
    from findBest_fold [OF this] True
    obtain i where i: "i < length xs" "b = Some (fst (xs ! i))" "s = snd (xs ! i)" by auto
    from i(1) len have il: "i < length skills" by simp
    have bi: "b = Some (fst (skills ! i))" using i(2) il by (simp add: xs_def scoreTable_nth)
    have si: "s = 3 / 2 * of_nat (matchCount lower (keywordsOf (fst (skills ! i))))"
      using i(3) il count by (simp add: xs_def scoreTable_nth)
    define n where "n = matchCount lower (keywordsOf (fst (skills ! i)))"
    from si True have npos: "0 < n" by (cases "n = 0") (simp_all add: n_def)
    then have "(3 / 2 * of_nat n :: rat) \<noteq> of_nat n" by simp
    with res True bi si npos show ?thesis
      by (auto simp: n_def lower_def)
  qed
qed

lemma scores_what_is:
  "\<forall>e \<in> set skills. skillScore (toLowerCase (u ''what is 2+2'')) (skill_keywords (snd e)) = 0"
  by (simp add: skills_def skillScore_def keywordStep_def includesStr_def sublist_code
      toLowerCase_def lowerUnit_def)

lemma scores_review:
  "map (\<lambda>e. skillScore (toLowerCase (u ''review this pull request'')) (skill_keywords (snd e))) skills
     = [0, 3, 0, 0, 0, 0, 0, 0, 0]"
  by (simp add: skills_def skillScore_def keywordStep_def includesStr_def sublist_code
      toLowerCase_def lowerUnit_def)

theorem detectSkill_highest_score_witness:
  "detectSkill (u ''what is 2+2'') = \<lparr>skill = Some (u ''general''), confidence = 0\<rparr> \<and>
   detectSkill (u ''review this pull request'') = \<lparr>skill = Some (u ''pr-review''), confidence = 3\<rparr>"
proof -
  let ?m1 = "u ''what is 2+2''" and ?m2 = "u ''review this pull request''"
  have h1: "\<forall>i < length skills. scoreAt ?m1 i = 0"
    using scores_what_is by (simp add: scoreAt_def)
  have len: "length skills = 9" by (simp add: skills_def)
  have sc2: "scoreAt ?m2 i = [0, 3, 0, 0, 0, 0, 0, 0, 0] ! i" if "i < length skills" for i
  proof -
    have "scoreAt ?m2 i = map (\<lambda>e. skillScore (toLowerCase ?m2) (skill_keywords (snd e))) skills ! i"
      using that by (simp add: scoreAt_def)
    then show ?thesis by (simp only: scores_review)
  qed
  have one: "scoreAt ?m2 1 = 3" using sc2 [of 1] len by simp
  then have h2: "\<exists>i < length skills. scoreAt ?m2 i \<noteq> 0" using len by (intro exI [of _ 1]) simp
  from detectSkill_highest_score [of ?m1] h1
  have c1: "detectSkill ?m1 = \<lparr>skill = Some (u ''general''), confidence = 0\<rparr>" by blast
  from detectSkill_highest_score [of ?m2] h2
  obtain i where i: "i < length skills"
    "detectSkill ?m2 = \<lparr>skill = Some (fst (skills ! i)), confidence = scoreAt ?m2 i\<rparr>"
    "\<forall>j < length skills. scoreAt ?m2 j \<le> scoreAt ?m2 i" by blast
  have "(1::nat) < length skills" using len by simp
  with i(3) have "scoreAt ?m2 1 \<le> scoreAt ?m2 i" by blast
  with one have ge: "3 \<le> scoreAt ?m2 i" by simp
  have "i = 1"
  proof (rule ccontr)
    assume "i \<noteq> 1"
    with i(1) len have "[0, 3, 0, 0, 0, 0, 0, 0, 0::rat] ! i = 0"
      by (simp add: nth_Cons' )
    with sc2 [OF i(1)] ge show False by simp
  qed
  with i(2) one have "detectSkill ?m2 = \<lparr>skill = Some (fst (skills ! 1)), confidence = 3\<rparr>" by simp
  moreover have "fst (skills ! 1) = u ''pr-review''" by (simp add: skills_def)
  ultimately show ?thesis using c1 by simp
qed

theorem detectSkill_confidence_bonus_witness:
  "keywordStep (toLowerCase (u ''review this pull request'')) 0 (u ''review'') = 3 / 2 \<and>
   confidence (detectSkill (u ''review this pull request'')) = 3 \<and>
   matchCount (toLowerCase (u ''review this pull request'')) (keywordsOf (u ''pr-review'')) = 2"
proof -
  let ?m = "u ''review this pull request''"
  note th = detectSkill_confidence_bonus [of ?m 0]
  have "(u ''pr-review'', snd (skills ! 1)) \<in> set skills" "u ''review'' \<in> set (skill_keywords (snd (skills ! 1)))"
    by (simp_all add: skills_def)
  with th have step: "keywordStep (toLowerCase ?m) 0 (u ''review'')
      = (if includesStr (toLowerCase ?m) (u ''review'') then 0 + 3 / 2 else 0)"
    by (metis snd_conv)
  from th
  obtain sid where sid: "skill (detectSkill ?m) = Some sid"
    "confidence (detectSkill ?m) = 3 / 2 * of_nat (matchCount (toLowerCase ?m) (keywordsOf sid))"
    "confidence (detectSkill ?m) \<noteq> 0 \<longrightarrow> 0 < matchCount (toLowerCase ?m) (keywordsOf sid) \<and>
       confidence (detectSkill ?m) \<noteq> of_nat (matchCount (toLowerCase ?m) (keywordsOf sid))" by blast
  have d: "detectSkill ?m = \<lparr>skill = Some (u ''pr-review''), confidence = 3\<rparr>"
    by (simp add: detectSkill_def scoreTable_def skills_def skillScore_def keywordStep_def
        findBest_def bestStep_def includesStr_def sublist_code toLowerCase_def lowerUnit_def)
  from d sid(1) have s: "sid = u ''pr-review''" by simp
  from d have nz: "confidence (detectSkill ?m) \<noteq> 0" by simp
  from sid(2) d s have "(3::rat) = 3 / 2 * of_nat (matchCount (toLowerCase ?m) (keywordsOf (u ''pr-review'')))"
    by simp
  then have "of_nat (matchCount (toLowerCase ?m) (keywordsOf (u ''pr-review''))) = (of_nat 2 :: rat)" by simp
  then have "matchCount (toLowerCase ?m) (keywordsOf (u ''pr-review'')) = 2"
    by (simp only: of_nat_eq_iff)
  moreover have "includesStr (toLowerCase ?m) (u ''review'')"
    by (simp add: includesStr_def sublist_code toLowerCase_def lowerUnit_def)
  with step have "keywordStep (toLowerCase ?m) 0 (u ''review'') = 3 / 2" by (simp del: list.map)
  ultimately show ?thesis using d sid(3) nz by simp
qed

section \<open>Properties of the model picker\<close>

lemma if_add_int: "(if b then s + k else s) = s + (if b then k else (0::int))"
  by simp

lemma if_sub_int: "(if b then s - k else s) = s - (if b then k else (0::int))"
  by simp

lemma analyzeTaskComplexity_additive:
  "analyzeTaskComplexity message context = max 0 (additiveScore message context)"
proof -
  have d: "(case conversationTurns context of None \<Rightarrow> False | Some t \<Rightarrow> 3 < t) = (depthScore context = 1)"
    by (simp add: depthScore_def split: option.split)
  have d2: "(if depthScore context = 1 then 1 else 0) = depthScore context"
    by (simp add: depthScore_def split: option.split)
  show ?thesis
    unfolding analyzeTaskComplexity_def Let_def d if_add_int if_sub_int d2
    by (simp add: additiveScore_def classScore_def classHit_def
      indicatorClasses_def lookupClasses_def lengthScore_def shortPenalty_def split del: if_split)
qed

lemma models_differ: "models_smart \<noteq> models_fast"
  by (simp add: models_smart_def models_fast_def)

text \<open>
  Claim C5. The complexity score is the additive rule floored at zero: the increments of
  the indicator classes that occur, of the two length thresholds and of a conversation
  deeper than three turns, less the penalties for lookup phrases and for a short message.
  Without an override the smart model (the deep tier) is chosen exactly when the score reaches the
  threshold 3 and the fast one otherwise; an override \<open>fast\<close> or \<open>smart\<close> decides the
  model whatever the message is. Both functions are pure functions of their arguments.
\<close>

theorem tier_selection:
  "analyzeTaskComplexity message context = max 0 (additiveScore message context) \<and>
   0 \<le> analyzeTaskComplexity message context \<and>
   (forceModel context \<noteq> Some (u ''fast'') \<and> forceModel context \<noteq> Some (u ''smart'') \<longrightarrow>
      (chooseModel message context = models_smart \<longleftrightarrow> 3 \<le> analyzeTaskComplexity message context) \<and>
      (chooseModel message context = models_fast \<longleftrightarrow> analyzeTaskComplexity message context < 3)) \<and>
   (forceModel context = Some (u ''fast'') \<longrightarrow> chooseModel message' context = models_fast) \<and>
   (forceModel context = Some (u ''smart'') \<longrightarrow> chooseModel message' context = models_smart)"
proof (intro conjI impI)
  show "analyzeTaskComplexity message context = max 0 (additiveScore message context)"
    by (rule analyzeTaskComplexity_additive)
  show "0 \<le> analyzeTaskComplexity message context"
    by (simp add: analyzeTaskComplexity_additive)
next
  assume no: "forceModel context \<noteq> Some (u ''fast'') \<and> forceModel context \<noteq> Some (u ''smart'')"
  then have c: "chooseModel message context =
      (if 3 \<le> analyzeTaskComplexity message context then models_smart else models_fast)"
    unfolding chooseModel_def Let_def by (simp del: list.map)
  show "chooseModel message context = models_smart \<longleftrightarrow> 3 \<le> analyzeTaskComplexity message context"
    using models_differ by (simp add: c)
  show "chooseModel message context = models_fast \<longleftrightarrow> analyzeTaskComplexity message context < 3"
    using models_differ by (auto simp: c)
next
  assume "forceModel context = Some (u ''fast'')"
  then show "chooseModel message' context = models_fast"
    unfolding chooseModel_def Let_def by (simp del: list.map)
next
  assume f: "forceModel context = Some (u ''smart'')"
  have "u ''smart'' \<noteq> u ''fast''" by simp
  with f have "forceModel context \<noteq> Some (u ''fast'')" by (simp del: list.map)
  with f show "chooseModel message' context = models_smart"
    unfolding chooseModel_def Let_def by (simp del: list.map)
qed

lemma complexity_what_is:
  "analyzeTaskComplexity (u ''what is 2+2'') \<lparr>conversationTurns = None, forceModel = None\<rparr> = 0"
  by (simp add: analyzeTaskComplexity_additive additiveScore_def classScore_def classHit_def
      indicatorClasses_def lookupClasses_def lengthScore_def depthScore_def shortPenalty_def
      includesStr_def sublist_code toLowerCase_def lowerUnit_def)

lemma complexity_review:
  "analyzeTaskComplexity (u ''review the architecture of this pull request'')
     \<lparr>conversationTurns = Some 5, forceModel = None\<rparr> = 7"
  by (simp add: analyzeTaskComplexity_additive additiveScore_def classScore_def classHit_def
      indicatorClasses_def lookupClasses_def lengthScore_def depthScore_def shortPenalty_def
      includesStr_def sublist_code toLowerCase_def lowerUnit_def)

theorem tier_selection_witness:
  "chooseModel (u ''what is 2+2'') \<lparr>conversationTurns = None, forceModel = None\<rparr> = models_fast \<and>
   chooseModel (u ''review the architecture of this pull request'')
     \<lparr>conversationTurns = Some 5, forceModel = None\<rparr> = models_smart \<and>
   chooseModel (u ''review the architecture of this pull request'')
     \<lparr>conversationTurns = Some 5, forceModel = Some (u ''fast'')\<rparr> = models_fast \<and>
   chooseModel (u ''what is 2+2'') \<lparr>conversationTurns = None, forceModel = Some (u ''smart'')\<rparr> = models_smart"
proof -
  let ?m1 = "u ''what is 2+2''" and ?m2 = "u ''review the architecture of this pull request''"
  let ?c1 = "\<lparr>conversationTurns = None, forceModel = None\<rparr>"
  let ?c2 = "\<lparr>conversationTurns = Some 5, forceModel = None\<rparr>"
  let ?cf = "\<lparr>conversationTurns = Some 5, forceModel = Some (u ''fast'')\<rparr>"
  let ?cs = "\<lparr>conversationTurns = None, forceModel = Some (u ''smart'')\<rparr>"
  have n1: "forceModel ?c1 \<noteq> Some (u ''fast'') \<and> forceModel ?c1 \<noteq> Some (u ''smart'')" by simp
  have n2: "forceModel ?c2 \<noteq> Some (u ''fast'') \<and> forceModel ?c2 \<noteq> Some (u ''smart'')" by simp
  have f: "forceModel ?cf = Some (u ''fast'')" by simp
  have s: "forceModel ?cs = Some (u ''smart'')" by simp
  from tier_selection [of ?m1 ?c1 ?m1] n1 complexity_what_is
  have a: "chooseModel ?m1 ?c1 = models_fast" by simp
  from tier_selection [of ?m2 ?c2 ?m2] n2 complexity_review
  have b: "chooseModel ?m2 ?c2 = models_smart" by simp
  from tier_selection [of ?m2 ?cf ?m2] f
  have c: "chooseModel ?m2 ?cf = models_fast" by blast
  from tier_selection [of ?m1 ?cs ?m1] s
  have d: "chooseModel ?m1 ?cs = models_smart" by blast
  from a b c d show ?thesis by blast
qed

lemma toLowerCase_append: "toLowerCase (a @ b) = toLowerCase a @ toLowerCase b"
  by (simp add: toLowerCase_def)

lemma includesStr_append_left: "includesStr a w \<Longrightarrow> includesStr (a @ b) w"
  by (auto simp: includesStr_def sublist_append)

lemma includesStr_append_new:
  assumes "includesStr (a @ p) w"
    and "\<not> sublist w p"
    and "\<forall>s \<in> set (suffixes w). s \<noteq> [] \<longrightarrow> \<not> prefix s p"
  shows "includesStr a w"
proof -
  from assms(1) have "sublist w a \<or> sublist w p \<or> (\<exists>w1 w2. w = w1 @ w2 \<and> suffix w1 a \<and> prefix w2 p)"
    by (simp add: includesStr_def sublist_append)
  with assms(2) consider "sublist w a" | w1 w2 where "w = w1 @ w2" "suffix w1 a" "prefix w2 p"
    by blast
  then show ?thesis
  proof cases
    case 1
    then show ?thesis by (simp add: includesStr_def)
  next
    case 2
    have "suffix w2 w" using 2(1) by (simp add: suffix_def)
    then have "w2 \<in> set (suffixes w)" by (simp add: in_set_suffixes)
    with assms(3) 2(3) have "w2 = []" by blast
    with 2(1,2) have "suffix w a" by simp
    then show ?thesis by (simp add: includesStr_def)
  qed
qed

lemma pieces_no_overlap:
  "\<forall>p \<in> set extensionPieces. \<forall>w \<in> set lookupPhrases.
     \<not> sublist w p \<and> (\<forall>s \<in> set (suffixes w). s \<noteq> [] \<longrightarrow> \<not> prefix s p)"
  by (simp add: extensionPieces_def highWeightPhrases_def lookupPhrases_def sublist_code)


lemma classHit_append: "classHit lower ps \<Longrightarrow> classHit (lower @ x) ps"
  by (auto simp: classHit_def intro: includesStr_append_left)

lemma classHit_lookup_append:
  assumes p: "p \<in> set extensionPieces" and ps: "set ps \<subseteq> set lookupPhrases"
    and hit: "classHit (lower @ p) ps"
  shows "classHit lower ps"
proof -
  from hit obtain w where w: "w \<in> set ps" "includesStr (lower @ p) w"
    by (auto simp: classHit_def)
  with ps have "w \<in> set lookupPhrases" by blast
  with p pieces_no_overlap
  have "\<not> sublist w p" "\<forall>s \<in> set (suffixes w). s \<noteq> [] \<longrightarrow> \<not> prefix s p" by blast+
  with w(2) have "includesStr lower w" by (rule includesStr_append_new)
  with w(1) show ?thesis by (auto simp: classHit_def)
qed

lemma indicator_weights: "\<forall>c \<in> set indicatorClasses. 0 \<le> snd c"
  by (simp add: indicatorClasses_def)

lemma lookup_weights: "\<forall>c \<in> set lookupClasses. 0 \<le> snd c \<and> set (fst c) \<subseteq> set lookupPhrases"
  by (simp add: lookupClasses_def lookupPhrases_def)

lemma indicator_score_append:
  "classScore lower indicatorClasses \<le> classScore (lower @ x) indicatorClasses"
  unfolding classScore_def
proof (rule sum_list_mono)
  fix c assume "c \<in> set indicatorClasses"
  with indicator_weights have "0 \<le> snd c" by blast
  then show "(case c of (phrases, w) \<Rightarrow> if classHit lower phrases then w else 0)
      \<le> (case c of (phrases, w) \<Rightarrow> if classHit (lower @ x) phrases then w else 0)"
    by (cases c) (auto dest: classHit_append)
qed

lemma lookup_score_append:
  assumes "p \<in> set extensionPieces"
  shows "classScore (lower @ p) lookupClasses \<le> classScore lower lookupClasses"
  unfolding classScore_def
proof (rule sum_list_mono)
  fix c assume "c \<in> set lookupClasses"
  with lookup_weights have w: "0 \<le> snd c" "set (fst c) \<subseteq> set lookupPhrases" by blast+
  show "(case c of (phrases, w) \<Rightarrow> if classHit (lower @ p) phrases then w else 0)
      \<le> (case c of (phrases, w) \<Rightarrow> if classHit lower phrases then w else 0)"
    using w classHit_lookup_append [OF assms] by (cases c) auto
qed

lemma lengthScore_mono: "n \<le> m \<Longrightarrow> lengthScore n \<le> lengthScore m"
  by (simp add: lengthScore_def)

lemma shortPenalty_antimono: "n \<le> m \<Longrightarrow> shortPenalty m \<le> shortPenalty n"
  by (simp add: shortPenalty_def)

lemma complexity_append_piece:
  assumes "toLowerCase p \<in> set extensionPieces"
  shows "analyzeTaskComplexity message context \<le> analyzeTaskComplexity (message @ p) context"
proof -
  have low: "toLowerCase (message @ p) = toLowerCase message @ toLowerCase p"
    by (simp add: toLowerCase_append)
  have "additiveScore message context \<le> additiveScore (message @ p) context"
    unfolding additiveScore_def low
    using indicator_score_append [of "toLowerCase message" "toLowerCase p"]
      lookup_score_append [OF assms, of "toLowerCase message"]
      lengthScore_mono [of "length message" "length (message @ p)"]
      shortPenalty_antimono [of "length message" "length (message @ p)"]
    by simp
  then show ?thesis by (simp add: analyzeTaskComplexity_additive)
qed

lemma includesStr_append_right: "includesStr b w \<Longrightarrow> includesStr (a @ b) w"
  by (auto simp: includesStr_def sublist_append)

lemma includesStr_prepend_new:
  assumes "includesStr (p @ a) w"
    and "\<not> sublist w p"
    and "\<forall>s \<in> set (prefixes w). s \<noteq> [] \<longrightarrow> \<not> suffix s p"
  shows "includesStr a w"
proof -
  from assms(1) have "sublist w p \<or> sublist w a \<or> (\<exists>w1 w2. w = w1 @ w2 \<and> suffix w1 p \<and> prefix w2 a)"
    by (simp add: includesStr_def sublist_append)
  with assms(2) consider "sublist w a" | w1 w2 where "w = w1 @ w2" "suffix w1 p" "prefix w2 a"
    by blast
  then show ?thesis
  proof cases
    case 1
    then show ?thesis by (simp add: includesStr_def)
  next
    case 2
    have "prefix w1 w" using 2(1) by simp
    then have "w1 \<in> set (prefixes w)" by (simp add: in_set_prefixes)
    with assms(3) 2(2) have "w1 = []" by blast
    with 2(1,3) have "prefix w a" by simp
    then show ?thesis by (simp add: includesStr_def)
  qed
qed

lemma leading_no_overlap:
  "\<forall>p \<in> set leadingPieces. \<forall>w \<in> set lookupPhrases.
     \<not> sublist w p \<and> (\<forall>s \<in> set (prefixes w). s \<noteq> [] \<longrightarrow> \<not> suffix s p)"
  by (simp add: leadingPieces_def highWeightPhrases_def lookupPhrases_def sublist_code suffix_def)

lemma classHit_prepend: "classHit lower ps \<Longrightarrow> classHit (x @ lower) ps"
  by (auto simp: classHit_def intro: includesStr_append_right)

lemma classHit_lookup_prepend:
  assumes p: "p \<in> set leadingPieces" and ps: "set ps \<subseteq> set lookupPhrases"
    and hit: "classHit (p @ lower) ps"
  shows "classHit lower ps"
proof -
  from hit obtain w where w: "w \<in> set ps" "includesStr (p @ lower) w"
    by (auto simp: classHit_def)
  with ps have "w \<in> set lookupPhrases" by blast
  with p leading_no_overlap
  have "\<not> sublist w p" "\<forall>s \<in> set (prefixes w). s \<noteq> [] \<longrightarrow> \<not> suffix s p" by blast+
  with w(2) have "includesStr lower w" by (rule includesStr_prepend_new)
  with w(1) show ?thesis by (auto simp: classHit_def)
qed

lemma indicator_score_prepend:
  "classScore lower indicatorClasses \<le> classScore (x @ lower) indicatorClasses"
  unfolding classScore_def
proof (rule sum_list_mono)
  fix c assume "c \<in> set indicatorClasses"
  with indicator_weights have "0 \<le> snd c" by blast
  then show "(case c of (phrases, w) \<Rightarrow> if classHit lower phrases then w else 0)
      \<le> (case c of (phrases, w) \<Rightarrow> if classHit (x @ lower) phrases then w else 0)"
    by (cases c) (auto dest: classHit_prepend)
qed

lemma lookup_score_prepend:
  assumes "p \<in> set leadingPieces"
  shows "classScore (p @ lower) lookupClasses \<le> classScore lower lookupClasses"
  unfolding classScore_def
proof (rule sum_list_mono)
  fix c assume "c \<in> set lookupClasses"
  with lookup_weights have w: "0 \<le> snd c" "set (fst c) \<subseteq> set lookupPhrases" by blast+
  show "(case c of (phrases, w) \<Rightarrow> if classHit (p @ lower) phrases then w else 0)
      \<le> (case c of (phrases, w) \<Rightarrow> if classHit lower phrases then w else 0)"
    using w classHit_lookup_prepend [OF assms] by (cases c) auto
qed

lemma complexity_prepend_piece:
  assumes "toLowerCase p \<in> set leadingPieces"
  shows "analyzeTaskComplexity message context \<le> analyzeTaskComplexity (p @ message) context"
proof -
  have low: "toLowerCase (p @ message) = toLowerCase p @ toLowerCase message"
    by (simp add: toLowerCase_append)
  have "additiveScore message context \<le> additiveScore (p @ message) context"
    unfolding additiveScore_def low
    using indicator_score_prepend [of "toLowerCase message" "toLowerCase p"]
      lookup_score_prepend [OF assms, of "toLowerCase message"]
      lengthScore_mono [of "length message" "length (p @ message)"]
      shortPenalty_antimono [of "length message" "length (p @ message)"]
    by simp
  then show ?thesis by (simp add: analyzeTaskComplexity_additive)
qed

lemma complexity_append_pieces:
  "toLowerCase ` set ps \<subseteq> set extensionPieces \<Longrightarrow>
     analyzeTaskComplexity message context \<le> analyzeTaskComplexity (message @ concat ps) context"
proof (induction ps arbitrary: message)
  case Nil
  then show ?case by simp
next
  case (Cons p ps)
  then have p: "toLowerCase p \<in> set extensionPieces"
    and ps: "toLowerCase ` set ps \<subseteq> set extensionPieces" by simp_all
  have "analyzeTaskComplexity message context \<le> analyzeTaskComplexity (message @ p) context"
    using p by (rule complexity_append_piece)
  also have "\<dots> \<le> analyzeTaskComplexity ((message @ p) @ concat ps) context"
    using ps by (rule Cons.IH)
  finally show ?case by simp
qed

lemma complexity_prepend_pieces:
  "toLowerCase ` set ps \<subseteq> set leadingPieces \<Longrightarrow>
     analyzeTaskComplexity message context \<le> analyzeTaskComplexity (concat ps @ message) context"
proof (induction ps)
  case Nil
  then show ?case by simp
next
  case (Cons p ps)
  then have p: "toLowerCase p \<in> set leadingPieces"
    and ps: "toLowerCase ` set ps \<subseteq> set leadingPieces" by simp_all
  have "analyzeTaskComplexity message context \<le> analyzeTaskComplexity (concat ps @ message) context"
    using ps by (rule Cons.IH)
  also have "\<dots> \<le> analyzeTaskComplexity (p @ concat ps @ message) context"
    using p by (rule complexity_prepend_piece)
  finally show ?case by simp
qed

text \<open>
  As the claim states it, for every way of extending a text, the property fails. A
  phrase glued in front of a text can complete a lookup phrase with the first letters of
  the text, as \<open>review\<close> does in front of \<open>hat is\<close>: the score falls from 2 to 1. A phrase
  put into the middle of a text can break an indicator phrase, as \<open>design\<close> does inside
  \<open>pull request\<close>: the score falls from 4 to 2.
\<close>

theorem complexity_monotone_counterexample:
  "\<not> analyzeTaskComplexity (u ''hat is the outcome of the review of the last release, in short?'')
        \<lparr>conversationTurns = None, forceModel = None\<rparr>
      \<le> analyzeTaskComplexity
           (u ''review'' @ u ''hat is the outcome of the review of the last release, in short?'')
           \<lparr>conversationTurns = None, forceModel = None\<rparr> \<and>
   \<not> analyzeTaskComplexity (u ''design pull '' @ u ''request'')
        \<lparr>conversationTurns = None, forceModel = None\<rparr>
      \<le> analyzeTaskComplexity (u ''design pull '' @ u ''design '' @ u ''request'')
           \<lparr>conversationTurns = None, forceModel = None\<rparr>"
  by (simp add: analyzeTaskComplexity_additive additiveScore_def classScore_def classHit_def
      indicatorClasses_def lookupClasses_def lengthScore_def depthScore_def shortPenalty_def
      includesStr_def sublist_code toLowerCase_def lowerUnit_def)

text \<open>
  Claim C6, as amended. Extending a text with high-weight indicator phrases at its two
  ends never decreases the score of \<open>analyzeTaskComplexity\<close>: phrases appended to the
  text, each directly or after a blank, and phrases put in front of it, each followed by
  a blank, in any letter case.
\<close>

theorem complexity_monotone:
  assumes "toLowerCase ` set before \<subseteq> set leadingPieces"
    and "toLowerCase ` set after \<subseteq> set extensionPieces"
  shows "analyzeTaskComplexity message context
           \<le> analyzeTaskComplexity (concat before @ message @ concat after) context"
proof -
  have "analyzeTaskComplexity message context \<le> analyzeTaskComplexity (message @ concat after) context"
    using assms(2) by (rule complexity_append_pieces)
  also have "\<dots> \<le> analyzeTaskComplexity (concat before @ message @ concat after) context"
    using assms(1) by (rule complexity_prepend_pieces)
  finally show ?thesis .
qed

theorem complexity_monotone_witness:
  "analyzeTaskComplexity (u ''fix the bug'') \<lparr>conversationTurns = None, forceModel = None\<rparr>
     \<le> analyzeTaskComplexity (u ''Refactor fix the bug Architecture design'')
          \<lparr>conversationTurns = None, forceModel = None\<rparr>"
proof -
  let ?before = "[u ''Refactor '']"
  let ?after = "[32 # u ''Architecture'', 32 # u ''design'']"
  have b: "toLowerCase ` set ?before \<subseteq> set leadingPieces"
    by (simp add: leadingPieces_def highWeightPhrases_def toLowerCase_def lowerUnit_def)
  have a: "toLowerCase ` set ?after \<subseteq> set extensionPieces"
    by (simp add: extensionPieces_def highWeightPhrases_def toLowerCase_def lowerUnit_def)
  have eq: "concat ?before @ u ''fix the bug'' @ concat ?after = u ''Refactor fix the bug Architecture design''"
    by simp
  from complexity_monotone [OF b a, of "u ''fix the bug''" "\<lparr>conversationTurns = None, forceModel = None\<rparr>"]
  show ?thesis unfolding eq .
qed

section \<open>Properties of the metrics collector\<close>

lemma getDuration_cases:
  "getDuration mc a b =
     (if truthyNum (timings mc a) \<and> truthyNum (timings mc b)
      then Some (numOf (timings mc b) - numOf (timings mc a)) else None)"
  by (simp add: getDuration_def Let_def)

lemma mark_timing_key:
  "event \<in> set timingKeys \<Longrightarrow> now \<noteq> 0 \<Longrightarrow> truthyNum (timings (mark mc event now) event)"
  by (simp add: mark_def truthyNum_def)

lemma newMetricsCollector_receivedAt:
  "timings (newMetricsCollector messageId userMessage now) (u ''receivedAt'') = Some now"
  by (simp add: newMetricsCollector_def mark_def timingKeys_def)

text \<open>
  The nine segment durations are calls of \<open>getDuration\<close>, which leaves a duration out
  (\<open>null\<close>) unless both of its checkpoints are set. The total is the end checkpoint
  \<open>responseSent\<close> less the start checkpoint \<open>receivedAt\<close>, or the current time less the
  start checkpoint while the end checkpoint is not set.
\<close>

lemma getDuration_omitted:
  "\<not> truthyNum (timings mc a) \<or> \<not> truthyNum (timings mc b) \<Longrightarrow> getDuration mc a b = None"
  by (auto simp: getDuration_cases)

lemma getBreakdown_total:
  "bd_total (getBreakdown mc now) =
     (if truthyNum (timings mc (u ''responseSent''))
      then numOf (timings mc (u ''responseSent'')) - numOf (timings mc (u ''receivedAt''))
      else now - numOf (timings mc (u ''receivedAt'')))"
  by (simp add: getBreakdown_def Let_def del: list.map)

text \<open>
  The aggregate \<open>orchestrator\<close> is not computed by \<open>getDuration\<close>. It is guarded on its end
  checkpoint \<open>apiCallEnd\<close> only: when that is set and \<open>orchestratorStart\<close> is not, the
  field is not left out but holds the end reading itself, \<open>apiCallEnd - null\<close>.
\<close>

lemma orchestrator_without_start:
  assumes "truthyNum (timings mc (u ''apiCallEnd''))" and "timings mc (u ''orchestratorStart'') = None"
  shows "bd_orchestrator (getBreakdown mc now) = timings mc (u ''apiCallEnd'')"
  using assms
  by (cases "timings mc (u ''apiCallEnd'')")
     (simp_all add: getBreakdown_def Let_def truthyNum_def numOf_def del: list.map)



section \<open>Properties of the message metadata store\<close>

lemma store_accepts:
  "MessageMetadataStore_store st messageId md t1 t2 = (True, st') \<Longrightarrow> messageId \<noteq> 0"
  by (auto simp: MessageMetadataStore_store_def split: if_splits)

text \<open>\<open>store\<close> refuses the id 0, for which \<open>!messageId\<close> holds, and stores nothing.\<close>

lemma store_refuses_zero:
  "MessageMetadataStore_store st 0 md nowCreated nowExpires = (False, st)"
  by (simp add: MessageMetadataStore_store_def)

lemma store_lookup:
  assumes "MessageMetadataStore_store st messageId md t1 t2 = (True, st')"
  shows "map_of (messages st') (numberToString messageId) = Some (storedRecord st md t1 t2)"
  using assms
  by (auto simp: MessageMetadataStore_store_def storedRecord_def Let_def update_conv' split: if_splits)

lemma store_fields:
  assumes "MessageMetadataStore_store st messageId md t1 t2 = (True, st')"
  shows "defaultRetentionMs st' = defaultRetentionMs st"
    and "distinct (map fst (messages st)) \<Longrightarrow> distinct (map fst (messages st'))"
  using assms
  by (auto simp: MessageMetadataStore_store_def Let_def distinct_update split: if_splits)

lemma get_absent:
  "map_of (messages st) (numberToString messageId) = None \<Longrightarrow>
     MessageMetadataStore_get st messageId now = (None, st)"
  by (simp add: MessageMetadataStore_get_def)

lemma get_live:
  "map_of (messages st) (numberToString messageId) = Some rec \<Longrightarrow> now \<le> expiresAt rec \<Longrightarrow>
     MessageMetadataStore_get st messageId now = (Some rec, st)"
  by (simp add: MessageMetadataStore_get_def)

lemma get_expired:
  "map_of (messages st) (numberToString messageId) = Some rec \<Longrightarrow> expiresAt rec < now \<Longrightarrow>
     MessageMetadataStore_get st messageId now =
       (None, st\<lparr>messages := AList.delete (numberToString messageId) (messages st)\<rparr>)"
  by (simp add: MessageMetadataStore_get_def)

lemma deleted_absent:
  "map_of (messages (st\<lparr>messages := AList.delete k (messages st)\<rparr>)) k = None"
  by (simp add: delete_conv')

text \<open>Whenever \<open>get\<close> returns nothing, the entry is gone after it.\<close>

lemma get_none_absent:
  assumes "fst (MessageMetadataStore_get st messageId now) = None"
  shows "map_of (messages (snd (MessageMetadataStore_get st messageId now)))
           (numberToString messageId) = None"
proof (cases "map_of (messages st) (numberToString messageId)")
  case None
  then show ?thesis by (simp add: get_absent)
next
  case (Some rec)
  with assms have "expiresAt rec < now"
    by (simp add: MessageMetadataStore_get_def split: if_splits)
  with Some show ?thesis by (simp add: get_expired delete_conv')
qed

subsection \<open>The sweep\<close>

lemma cleanup_messages:
  "messages (snd (MessageMetadataStore_cleanup st olderThanMs now)) =
     filter (\<lambda>(messageId, rec).
               \<not> (cleanupThreshold st olderThanMs < now - createdAt rec \<or> expiresAt rec < now))
       (messages st)"
  by (simp add: MessageMetadataStore_cleanup_def cleanupThreshold_def Let_def)

lemma cleanup_fields:
  "defaultRetentionMs (snd (MessageMetadataStore_cleanup st olderThanMs now)) = defaultRetentionMs st"
  "cleanupThreshold (snd (MessageMetadataStore_cleanup st olderThanMs now)) arg = cleanupThreshold st arg"
  by (simp_all add: MessageMetadataStore_cleanup_def cleanupThreshold_def Let_def)

lemma map_of_filter_absent: "map_of xs k = None \<Longrightarrow> map_of (filter P xs) k = None"
  by (induction xs) (auto split: if_splits)

lemma map_of_filter_kept: "map_of xs k = Some v \<Longrightarrow> P (k, v) \<Longrightarrow> map_of (filter P xs) k = Some v"
  by (induction xs) (auto split: if_splits)

lemma map_of_filter_dropped:
  "distinct (map fst xs) \<Longrightarrow> map_of xs k = Some v \<Longrightarrow> \<not> P (k, v) \<Longrightarrow> map_of (filter P xs) k = None"
proof (induction xs)
  case Nil
  then show ?case by simp
next
  case (Cons x xs)
  show ?case
  proof (cases "fst x = k")
    case True
    with Cons.prems have "x = (k, v)" "k \<notin> fst ` set xs" by (cases x; simp)+
    then have "map_of xs k = None" by (simp add: map_of_eq_None_iff)
    then have "map_of (filter P xs) k = None" by (rule map_of_filter_absent)
    with \<open>x = (k, v)\<close> Cons.prems(3) show ?thesis by simp
  next
    case False
    with Cons show ?thesis by (cases x) auto
  qed
qed

text \<open>
  One sweep and the entry of an id: an entry that is not there stays away; an entry that
  is there is kept when the sweep runs within its threshold of \<open>createdAt\<close> and not after
  \<open>expiresAt\<close>, and is deleted otherwise.
\<close>

lemma cleanup_absent:
  "map_of (messages st) k = None \<Longrightarrow>
     map_of (messages (snd (MessageMetadataStore_cleanup st olderThanMs now))) k = None"
  unfolding cleanup_messages by (rule map_of_filter_absent)

lemma cleanup_kept:
  "map_of (messages st) k = Some rec \<Longrightarrow>
   now - createdAt rec \<le> cleanupThreshold st olderThanMs \<Longrightarrow> now \<le> expiresAt rec \<Longrightarrow>
     map_of (messages (snd (MessageMetadataStore_cleanup st olderThanMs now))) k = Some rec"
  unfolding cleanup_messages by (rule map_of_filter_kept) auto

lemma cleanup_evicts:
  "distinct (map fst (messages st)) \<Longrightarrow> map_of (messages st) k = Some rec \<Longrightarrow>
   cleanupThreshold st olderThanMs < now - createdAt rec \<or> expiresAt rec < now \<Longrightarrow>
     map_of (messages (snd (MessageMetadataStore_cleanup st olderThanMs now))) k = None"
  unfolding cleanup_messages by (rule map_of_filter_dropped) auto

lemma cleanup_distinct:
  "distinct (map fst (messages st)) \<Longrightarrow>
     distinct (map fst (messages (snd (MessageMetadataStore_cleanup st olderThanMs now))))"
  unfolding cleanup_messages by (rule distinct_map_filter)

lemma sweeps_Cons:
  "sweeps st ((olderThanMs, now) # calls) =
     sweeps (snd (MessageMetadataStore_cleanup st olderThanMs now)) calls"
  by (simp add: sweeps_def)

lemma sweeps_Nil: "sweeps st [] = st"
  by (simp add: sweeps_def)

lemma sweeps_absent:
  "map_of (messages st) k = None \<Longrightarrow> map_of (messages (sweeps st calls)) k = None"
proof (induction calls arbitrary: st)
  case Nil
  then show ?case by (simp add: sweeps_Nil)
next
  case (Cons call calls)
  obtain olderThanMs now where call: "call = (olderThanMs, now)" by (cases call)
  from Cons.prems have "map_of (messages (snd (MessageMetadataStore_cleanup st olderThanMs now))) k = None"
    by (rule cleanup_absent)
  then show ?case unfolding call sweeps_Cons by (rule Cons.IH)
qed

lemma sweeps_kept:
  assumes "map_of (messages st) k = Some rec"
    and "\<forall>(olderThanMs, now) \<in> set calls.
           now - createdAt rec \<le> cleanupThreshold st olderThanMs \<and> now \<le> expiresAt rec"
  shows "map_of (messages (sweeps st calls)) k = Some rec"
  using assms
proof (induction calls arbitrary: st)
  case Nil
  then show ?case by (simp add: sweeps_Nil)
next
  case (Cons call calls)
  obtain olderThanMs now where call: "call = (olderThanMs, now)" by (cases call)
  let ?st = "snd (MessageMetadataStore_cleanup st olderThanMs now)"
  from Cons.prems call have "map_of (messages ?st) k = Some rec"
    by (intro cleanup_kept) auto
  moreover from Cons.prems(2)
  have "\<forall>(olderThanMs, now) \<in> set calls.
          now - createdAt rec \<le> cleanupThreshold ?st olderThanMs \<and> now \<le> expiresAt rec"
    by (simp add: cleanup_fields)
  ultimately show ?case unfolding call sweeps_Cons by (rule Cons.IH)
qed

lemma sweeps_evicts:
  assumes "distinct (map fst (messages st))" and "map_of (messages st) k = Some rec"
    and "\<exists>(olderThanMs, now) \<in> set calls.
           cleanupThreshold st olderThanMs < now - createdAt rec \<or> expiresAt rec < now"
  shows "map_of (messages (sweeps st calls)) k = None"
  using assms
proof (induction calls arbitrary: st)
  case Nil
  then show ?case by simp
next
  case (Cons call calls)
  obtain olderThanMs now where call: "call = (olderThanMs, now)" by (cases call)
  let ?st = "snd (MessageMetadataStore_cleanup st olderThanMs now)"
  show ?case
  proof (cases "cleanupThreshold st olderThanMs < now - createdAt rec \<or> expiresAt rec < now")
    case True
    with Cons.prems(1,2) have "map_of (messages ?st) k = None" by (rule cleanup_evicts)
    then show ?thesis unfolding call sweeps_Cons by (rule sweeps_absent)
  next
    case False
    with Cons.prems(2) have kept: "map_of (messages ?st) k = Some rec"
      by (intro cleanup_kept) auto
    from False Cons.prems(3) call
    have later: "\<exists>(olderThanMs, now) \<in> set calls.
        cleanupThreshold ?st olderThanMs < now - createdAt rec \<or> expiresAt rec < now"
      by (auto simp: cleanup_fields)
    from Cons.prems(1) have "distinct (map fst (messages ?st))" by (rule cleanup_distinct)
    then show ?thesis unfolding call sweeps_Cons using kept later by (rule Cons.IH)
  qed
qed

lemma sweeps_cases:
  assumes "distinct (map fst (messages st))" and "map_of (messages st) k = Some rec"
  shows "map_of (messages (sweeps st calls)) k = None \<or> map_of (messages (sweeps st calls)) k = Some rec"
proof (cases "\<exists>(olderThanMs, now) \<in> set calls.
           cleanupThreshold st olderThanMs < now - createdAt rec \<or> expiresAt rec < now")
  case True
  with assms show ?thesis by (simp add: sweeps_evicts)
next
  case False
  then have "\<forall>(olderThanMs, now) \<in> set calls.
           now - createdAt rec \<le> cleanupThreshold st olderThanMs \<and> now \<le> expiresAt rec"
    by (auto simp: not_less)
  with assms(2) show ?thesis by (simp add: sweeps_kept)
qed

lemma storedRecord_createdAt: "createdAt (storedRecord st md nowCreated nowExpires) = nowCreated"
  by (simp add: storedRecord_def)

text \<open>
  As the claim states it, for every \<open>get\<close> within the retention window, the property
  fails, because the store sweeps itself by the age of a record and not only by its
  expiry time. The two clock readings of \<open>store\<close> can differ: a record created at 1000
  whose expiry time was computed at 1001 is live up to 3601001, and the sweep of the
  store's own timer at 3601001 deletes it, so that the \<open>get\<close> at that time finds nothing.
  And a record stored with a retention of three hours is live up to 10801000, and the
  hourly sweep of the bot deletes it at 7201000.
\<close>

theorem metadata_ttl_counterexample:
  "(3601001::int) \<le> expiresAt (storedRecord newMessageMetadataStore exampleMetadata 1000 1001) \<and>
   fst (MessageMetadataStore_get
          (cleanupTimer
             (snd (MessageMetadataStore_store newMessageMetadataStore 42 exampleMetadata 1000 1001))
             3601001)
          42 3601001) = None \<and>
   (7201000::int) \<le> expiresAt (storedRecord newMessageMetadataStore
                                  (exampleMetadata\<lparr>md_retentionMs := Some 10800000\<rparr>) 1000 1000) \<and>
   fst (MessageMetadataStore_get
          (botCleanupTimer
             (snd (MessageMetadataStore_store newMessageMetadataStore 42
                     (exampleMetadata\<lparr>md_retentionMs := Some 10800000\<rparr>) 1000 1000))
             7201000)
          42 7201000) = None"
  by (simp add: MessageMetadataStore_store_def MessageMetadataStore_get_def
      MessageMetadataStore_cleanup_def cleanupTimer_def botCleanupTimer_def storedRecord_def
      newMessageMetadataStore_def exampleMetadata_def truthyNum_def numOf_def Let_def
      numberToString_def natToString.simps)

text \<open>
  Claim C2, as amended. After \<open>store\<close> has accepted a record for a message id, and with
  whatever sweeps of the store (calls of \<open>cleanup\<close>) run before a \<open>get\<close> on that id:
  if every sweep ran within its threshold of the creation time of the record and not
  after its expiry time, a \<open>get\<close> up to the expiry time returns the stored record and
  leaves the store as it is; if some sweep ran later than that, the sweep has deleted the
  entry and \<open>get\<close> returns nothing; a \<open>get\<close> after the expiry time returns nothing and the
  entry is gone after it; and once a \<open>get\<close> has returned nothing, every later \<open>get\<close> on
  that id, at whatever time and after whatever sweeps, returns nothing and changes
  nothing. The keys of the \<open>Map\<close> of the store are distinct.
\<close>

theorem metadata_ttl:
  assumes stored: "MessageMetadataStore_store st messageId md nowCreated nowExpires = (True, st')"
    and keys: "distinct (map fst (messages st))"
  shows
    "(\<forall>calls t.
        (\<forall>(olderThanMs, now) \<in> set calls.
           now - nowCreated \<le> cleanupThreshold st olderThanMs \<and>
           now \<le> expiresAt (storedRecord st md nowCreated nowExpires)) \<and>
        t \<le> expiresAt (storedRecord st md nowCreated nowExpires) \<longrightarrow>
        MessageMetadataStore_get (sweeps st' calls) messageId t
          = (Some (storedRecord st md nowCreated nowExpires), sweeps st' calls)) \<and>
     (\<forall>calls t.
        (\<exists>(olderThanMs, now) \<in> set calls.
           cleanupThreshold st olderThanMs < now - nowCreated \<or>
           expiresAt (storedRecord st md nowCreated nowExpires) < now) \<longrightarrow>
        MessageMetadataStore_get (sweeps st' calls) messageId t = (None, sweeps st' calls)) \<and>
     (\<forall>calls t.
        expiresAt (storedRecord st md nowCreated nowExpires) < t \<longrightarrow>
        fst (MessageMetadataStore_get (sweeps st' calls) messageId t) = None \<and>
        map_of (messages (snd (MessageMetadataStore_get (sweeps st' calls) messageId t)))
          (numberToString messageId) = None) \<and>
     (\<forall>calls t calls' t'.
        fst (MessageMetadataStore_get (sweeps st' calls) messageId t) = None \<longrightarrow>
        MessageMetadataStore_get
            (sweeps (snd (MessageMetadataStore_get (sweeps st' calls) messageId t)) calls') messageId t'
          = (None, sweeps (snd (MessageMetadataStore_get (sweeps st' calls) messageId t)) calls'))"
proof (intro conjI allI impI)
  let ?rec = "storedRecord st md nowCreated nowExpires"
  let ?k = "numberToString messageId"
  note look = store_lookup [OF stored]
  note keys' = store_fields(2) [OF stored keys]
  have thr: "cleanupThreshold st' arg = cleanupThreshold st arg" for arg
    using store_fields(1) [OF stored] by (simp add: cleanupThreshold_def)
  fix calls t
  {
    assume a: "(\<forall>(olderThanMs, now) \<in> set calls.
           now - nowCreated \<le> cleanupThreshold st olderThanMs \<and> now \<le> expiresAt ?rec) \<and>
        t \<le> expiresAt ?rec"
    then have "\<forall>(olderThanMs, now) \<in> set calls.
        now - createdAt ?rec \<le> cleanupThreshold st' olderThanMs \<and> now \<le> expiresAt ?rec"
      by (simp add: thr storedRecord_createdAt)
    with look have "map_of (messages (sweeps st' calls)) ?k = Some ?rec" by (rule sweeps_kept)
    then show "MessageMetadataStore_get (sweeps st' calls) messageId t = (Some ?rec, sweeps st' calls)"
      using a by (intro get_live) simp_all
  }
  {
    assume "\<exists>(olderThanMs, now) \<in> set calls.
        cleanupThreshold st olderThanMs < now - nowCreated \<or> expiresAt ?rec < now"
    then have "\<exists>(olderThanMs, now) \<in> set calls.
        cleanupThreshold st' olderThanMs < now - createdAt ?rec \<or> expiresAt ?rec < now"
      by (simp add: thr storedRecord_createdAt)
    with keys' look have "map_of (messages (sweeps st' calls)) ?k = None" by (rule sweeps_evicts)
    then show "MessageMetadataStore_get (sweeps st' calls) messageId t = (None, sweeps st' calls)"
      by (rule get_absent)
  }
  {
    assume late: "expiresAt ?rec < t"
    from sweeps_cases [OF keys' look, of calls]
    show "fst (MessageMetadataStore_get (sweeps st' calls) messageId t) = None"
    proof
      assume "map_of (messages (sweeps st' calls)) ?k = None"
      then show ?thesis by (simp add: get_absent)
    next
      assume "map_of (messages (sweeps st' calls)) ?k = Some ?rec"
      then show ?thesis using late by (simp add: get_expired)
    qed
    then show "map_of (messages (snd (MessageMetadataStore_get (sweeps st' calls) messageId t))) ?k = None"
      by (rule get_none_absent)
  }
  {
    fix calls' t'
    assume "fst (MessageMetadataStore_get (sweeps st' calls) messageId t) = None"
    then have "map_of (messages (snd (MessageMetadataStore_get (sweeps st' calls) messageId t))) ?k = None"
      by (rule get_none_absent)
    then have "map_of (messages (sweeps (snd (MessageMetadataStore_get (sweeps st' calls) messageId t)) calls')) ?k
        = None"
      by (rule sweeps_absent)
    then show "MessageMetadataStore_get
            (sweeps (snd (MessageMetadataStore_get (sweeps st' calls) messageId t)) calls') messageId t'
          = (None, sweeps (snd (MessageMetadataStore_get (sweeps st' calls) messageId t)) calls')"
      by (rule get_absent)
  }
qed

lemma store_example:
  "MessageMetadataStore_store newMessageMetadataStore 42 exampleMetadata 1000 1001 =
     (True, newMessageMetadataStore\<lparr>messages :=
        [(u ''42'', exampleMetadata\<lparr>createdAt := 1000, expiresAt := 3601001\<rparr>)]\<rparr>)"
  by (simp add: MessageMetadataStore_store_def newMessageMetadataStore_def exampleMetadata_def
      truthyNum_def numberToString_def natToString.simps)

theorem metadata_ttl_witness:
  "fst (MessageMetadataStore_get
          (sweeps (snd (MessageMetadataStore_store newMessageMetadataStore 42 exampleMetadata 1000 1001))
             [(None, 3601000)])
          42 3601001)
     = Some (exampleMetadata\<lparr>createdAt := 1000, expiresAt := 3601001\<rparr>) \<and>
   fst (MessageMetadataStore_get
          (sweeps (snd (MessageMetadataStore_store newMessageMetadataStore 42 exampleMetadata 1000 1001))
             [(None, 3601000), (Some 3600000, 3601001)])
          42 3601001) = None \<and>
   fst (MessageMetadataStore_get
          (sweeps (snd (MessageMetadataStore_store newMessageMetadataStore 42 exampleMetadata 1000 1001)) [])
          42 3601002) = None \<and>
   fst (MessageMetadataStore_get
          (sweeps
             (snd (MessageMetadataStore_get
                     (sweeps (snd (MessageMetadataStore_store newMessageMetadataStore 42 exampleMetadata 1000 1001)) [])
                     42 3601002))
             [(None, 3700000)])
          42 2000) = None"
proof -
  let ?st = "newMessageMetadataStore\<lparr>messages :=
        [(u ''42'', exampleMetadata\<lparr>createdAt := 1000, expiresAt := 3601001\<rparr>)]\<rparr>"
  have r: "storedRecord newMessageMetadataStore exampleMetadata 1000 1001 =
      exampleMetadata\<lparr>createdAt := 1000, expiresAt := 3601001\<rparr>"
    by (simp add: storedRecord_def newMessageMetadataStore_def exampleMetadata_def truthyNum_def)
  have e: "expiresAt (exampleMetadata\<lparr>createdAt := 1000, expiresAt := 3601001\<rparr>) = 3601001"
    by simp
  have d: "distinct (map fst (messages newMessageMetadataStore))"
    by (simp add: newMessageMetadataStore_def)
  have thr: "cleanupThreshold newMessageMetadataStore None = 3600000"
    "cleanupThreshold newMessageMetadataStore (Some 3600000) = 3600000"
    by (simp_all add: cleanupThreshold_def newMessageMetadataStore_def truthyNum_def numOf_def)
  note th = metadata_ttl [OF store_example d, unfolded r e]
  have a: "MessageMetadataStore_get (sweeps ?st [(None, 3601000)]) 42 3601001 =
      (Some (exampleMetadata\<lparr>createdAt := 1000, expiresAt := 3601001\<rparr>), sweeps ?st [(None, 3601000)])"
    by (rule th [THEN conjunct1, rule_format]) (simp add: thr)
  have b: "MessageMetadataStore_get (sweeps ?st [(None, 3601000), (Some 3600000, 3601001)]) 42 3601001 =
      (None, sweeps ?st [(None, 3601000), (Some 3600000, 3601001)])"
    by (rule th [THEN conjunct2, THEN conjunct1, rule_format]) (simp add: thr)
  have c: "fst (MessageMetadataStore_get (sweeps ?st []) 42 3601002) = None"
    using th [THEN conjunct2, THEN conjunct2, THEN conjunct1, rule_format, of 3601002 "[]"] by simp
  have f: "MessageMetadataStore_get
        (sweeps (snd (MessageMetadataStore_get (sweeps ?st []) 42 3601002)) [(None, 3700000)]) 42 2000
      = (None, sweeps (snd (MessageMetadataStore_get (sweeps ?st []) 42 3601002)) [(None, 3700000)])"
    using c by (rule th [THEN conjunct2, THEN conjunct2, THEN conjunct2, rule_format])
  show ?thesis unfolding store_example snd_conv using a b c f by simp
qed

section \<open>Properties of the rendered text\<close>

lemma length_getModelEmoji: "length (getModelEmoji m) \<le> 2"
  by (simp add: getModelEmoji_def Let_def EMOJI_MODEL_HA_def EMOJI_MODEL_SONNET_def
      EMOJI_MODEL_OPUS_def EMOJI_MODEL_DEFAULT_def split: option.split)

lemma length_natToString: "0 < length (natToString n)"
  by (subst natToString.simps) simp

lemma length_numberToString_zero: "length (numberToString 0) = 1"
  by (simp add: numberToString_def natToString.simps)

lemma length_formatMetricsDetails:
  "24 + (if bd_total m \<noteq> 0 then 10 + length (numberToString (bd_total m)) else 0)
     \<le> length (formatMetricsDetails m)"
  by (simp add: formatMetricsDetails_def Let_def split: list.split)

lemma metrics_part:
  "7 + length (numberToString (bd_total m)) \<le> length (formatMetricsDetails m) + 2"
proof (cases "bd_total m = 0")
  case True
  with length_formatMetricsDetails [of m] show ?thesis
    by (simp add: length_numberToString_zero)
next
  case False
  with length_formatMetricsDetails [of m] show ?thesis by simp
qed

lemma format_minimal:
  "formatResponseWithVerbosity r s m md ex c (u ''minimal'') = templateStr r"
  by (simp add: formatResponseWithVerbosity_def Let_def split: option.split)

lemma length_format_medium:
  "length (formatResponseWithVerbosity r s m md ex c (u ''medium'')) =
     length (header_medium s m)
       + (case md of None \<Rightarrow> 0 | Some mm \<Rightarrow> 7 + length (numberToString (bd_total mm)))
       + length (templateStr r)"
  by (simp add: formatResponseWithVerbosity_def Let_def header_medium_def split: option.split)

lemma length_format_full:
  "length (formatResponseWithVerbosity r s m md ex c (u ''full'')) =
     length (header_full s m)
       + (case md of None \<Rightarrow> 0 | Some mm \<Rightarrow> length (formatMetricsDetails mm) + 2)
       + length (templateStr r) + 77"
  by (simp add: formatResponseWithVerbosity_def Let_def header_full_def split: option.split)

lemma header_bound:
  assumes "truthyStr m \<longrightarrow> truthyStr s"
  shows "length (header_medium s m) \<le> length (header_full s m)"
proof (cases "truthyStr m")
  case False
  then show ?thesis by (simp add: header_medium_def)
next
  case True
  with assms have "truthyStr s" by simp
  with True show ?thesis by (simp add: header_medium_def header_full_def)
qed

lemma format_medium_le_full:
  assumes "truthyStr m \<longrightarrow> truthyStr s"
  shows "length (formatResponseWithVerbosity r s m md ex c (u ''medium''))
           \<le> length (formatResponseWithVerbosity r s m md ex c (u ''full''))"
proof -
  from assms have h: "length (header_medium s m) \<le> length (header_full s m)"
    by (rule header_bound)
  have mp: "(case md of None \<Rightarrow> 0 | Some mm \<Rightarrow> 7 + length (numberToString (bd_total mm)))
      \<le> (case md of None \<Rightarrow> 0 | Some mm \<Rightarrow> length (formatMetricsDetails mm) + 2)"
    using metrics_part by (cases md) simp_all
  show ?thesis
    unfolding length_format_medium length_format_full using h mp by linarith
qed

subsection \<open>The records that the bot stores\<close>

text \<open>
  The skill that \<open>detectSkill\<close> returns is an id of the table or \<open>general\<close>, and the model
  that \<open>chooseModel\<close> returns is one of the two of the table: neither name is empty.
\<close>

lemma skill_ids_nonempty: "\<forall>e \<in> set skills. fst e \<noteq> []"
  by (simp add: skills_def)

lemma findBest_skill:
  assumes "findBest scores = (bestSkill, bestScore)" and "0 < bestScore"
  shows "\<exists>e \<in> set scores. bestSkill = Some (fst e)"
proof -
  from assms(1) have "foldl bestStep (None, 0) scores = (bestSkill, bestScore)"
    by (simp add: findBest_def)
  from findBest_fold [OF this] assms(2)
  obtain i where "i < length scores" "bestSkill = Some (fst (scores ! i))" by auto
  then show ?thesis by (auto intro: bexI [of _ "scores ! i"])
qed

lemma detectSkill_truthy: "truthyStr (skill (detectSkill message))"
proof -
  obtain bestSkill bestScore
    where best: "findBest (scoreTable (toLowerCase message) skills) = (bestSkill, bestScore)"
    by (cases "findBest (scoreTable (toLowerCase message) skills)")
  show ?thesis
  proof (cases "0 < bestScore")
    case True
    from findBest_skill [OF best True]
    obtain e where e: "e \<in> set (scoreTable (toLowerCase message) skills)" "bestSkill = Some (fst e)"
      by blast
    from e(1) have "fst e \<in> fst ` set skills" by (force simp: scoreTable_def)
    with skill_ids_nonempty have "fst e \<noteq> []" by auto
    with e(2) True best show ?thesis by (simp add: detectSkill_def Let_def truthyStr_def)
  next
    case False
    with best show ?thesis by (simp add: detectSkill_def Let_def truthyStr_def)
  qed
qed

lemma chooseModel_name:
  "model_name (chooseModel message context) = u ''Haiku (Fast)'' \<or>
   model_name (chooseModel message context) = u ''Sonnet (Smart)''"
  by (simp add: chooseModel_def Let_def models_fast_def models_smart_def)

text \<open>The result of \<open>orchestrate\<close> has a skill and a model, or neither of them.\<close>

lemma orchestrate_skill_model:
  "truthyStr (res_skill (orchestrate message context thrown)) = (thrown = None)"
  "truthyStr (res_model (orchestrate message context thrown)) = (thrown = None)"
proof -
  show "truthyStr (res_skill (orchestrate message context thrown)) = (thrown = None)"
    using detectSkill_truthy [of message]
    by (cases thrown) (simp_all add: orchestrate_def Let_def truthyStr_def)
  show "truthyStr (res_model (orchestrate message context thrown)) = (thrown = None)"
    using chooseModel_name [of message "context"]
    by (cases thrown) (auto simp: orchestrate_def Let_def truthyStr_def)
qed

lemma botResponseMetadata_skill_model:
  "truthyStr (md_model (botResponseMetadata chatId message responseText
                          (orchestrate message context thrown) metricsBreakdown))
     = truthyStr (md_skill (botResponseMetadata chatId message responseText
                              (orchestrate message context thrown) metricsBreakdown))"
  by (simp add: botResponseMetadata_def orchestrate_skill_model)

text \<open>
  The other call of \<open>store\<close>, in the prompt handler, writes neither a skill nor a model.
  What \<open>store\<close> and the updates of the handlers write into a record does not enter the
  text that is rendered from it.
\<close>

lemma renderText_kept:
  "renderText (storedRecord st md nowCreated nowExpires) v = renderText md v"
  "renderText (md\<lparr>md_verbosity := verbosity\<rparr>) v = renderText md v"
  "renderText (md\<lparr>md_pendingRetry := retry, md_forceModel := force\<rparr>) v = renderText md v"
  "renderText (md\<lparr>md_userFeedback := feedback\<rparr>) v = renderText md v"
  "renderText (md\<lparr>md_promptAnswered := answered, md_selectedOption := selected\<rparr>) v = renderText md v"
  by (simp_all add: renderText_def storedRecord_def)

text \<open>
  Claim C7. The text that is rendered from a response the bot has stored, whatever the
  chat, the message, its context, the response text, the outcome of \<open>orchestrate\<close> and the
  metrics snapshot, does not get shorter from minimal to medium and from medium to full.
  For \<open>formatResponseWithVerbosity\<close> itself, with every response text, skill, model,
  metrics snapshot, explanation and score: the text does not get shorter from minimal to
  medium, and not from medium to full when a skill comes with the model, as it does in
  every record that the bot stores.
\<close>

theorem verbosity_length_monotone:
  "length (renderText (botResponseMetadata chatId message responseText
                         (orchestrate message context thrown) metricsBreakdown) (u ''minimal''))
     \<le> length (renderText (botResponseMetadata chatId message responseText
                            (orchestrate message context thrown) metricsBreakdown) (u ''medium'')) \<and>
   length (renderText (botResponseMetadata chatId message responseText
                         (orchestrate message context thrown) metricsBreakdown) (u ''medium''))
     \<le> length (renderText (botResponseMetadata chatId message responseText
                            (orchestrate message context thrown) metricsBreakdown) (u ''full'')) \<and>
   length (formatResponseWithVerbosity r s m md ex c (u ''minimal''))
     \<le> length (formatResponseWithVerbosity r s m md ex c (u ''medium'')) \<and>
   ((truthyStr m \<longrightarrow> truthyStr s) \<longrightarrow>
      length (formatResponseWithVerbosity r s m md ex c (u ''medium''))
        \<le> length (formatResponseWithVerbosity r s m md ex c (u ''full'')))"
proof (intro conjI impI)
  let ?rec = "botResponseMetadata chatId message responseText
                (orchestrate message context thrown) metricsBreakdown"
  show "length (renderText ?rec (u ''minimal'')) \<le> length (renderText ?rec (u ''medium''))"
    unfolding renderText_def format_minimal length_format_medium by simp
  have "truthyStr (md_model ?rec) \<longrightarrow> truthyStr (md_skill ?rec)"
    by (simp add: botResponseMetadata_skill_model)
  then show "length (renderText ?rec (u ''medium'')) \<le> length (renderText ?rec (u ''full''))"
    unfolding renderText_def by (rule format_medium_le_full)
  show "length (formatResponseWithVerbosity r s m md ex c (u ''minimal''))
     \<le> length (formatResponseWithVerbosity r s m md ex c (u ''medium''))"
    unfolding format_minimal length_format_medium by simp
  show "length (formatResponseWithVerbosity r s m md ex c (u ''medium''))
        \<le> length (formatResponseWithVerbosity r s m md ex c (u ''full''))"
    if "truthyStr m \<longrightarrow> truthyStr s"
    using that by (rule format_medium_le_full)
qed

theorem verbosity_length_monotone_witness:
  "length (formatResponseWithVerbosity (Some (u ''Looks good.'')) (Some (u ''pr-review''))
             (Some (u ''Sonnet (Smart)'')) None None None (u ''medium''))
     \<le> length (formatResponseWithVerbosity (Some (u ''Looks good.'')) (Some (u ''pr-review''))
             (Some (u ''Sonnet (Smart)'')) None None None (u ''full''))"
proof -
  have h: "truthyStr (Some (u ''Sonnet (Smart)'')) \<longrightarrow> truthyStr (Some (u ''pr-review''))"
    by (simp add: truthyStr_def)
  from verbosity_length_monotone [of _ _ _ _ _ _ "Some (u ''Looks good.'')" "Some (u ''pr-review'')"
      "Some (u ''Sonnet (Smart)'')" None None None] h
  show ?thesis by blast
qed

text \<open>
  The condition on skill and model is needed for the function taken by itself. The full
  header is written only when a skill and a model are both there, the medium header
  whenever a model is. An argument list with a model and no skill, which no call in the
  bot produces, loses its header at full: with a model name of 80 code units the medium
  text has 87 code units and the full text has 79.
\<close>

lemma model_without_skill_example:
  "length (formatResponseWithVerbosity (Some (u ''ok'')) None
             (Some (u ''anthropic/claude-sonnet-4-20250514-extended-thinking-long-context-window-preview''))
             None None None (u ''medium'')) = 87 \<and>
   length (formatResponseWithVerbosity (Some (u ''ok'')) None
             (Some (u ''anthropic/claude-sonnet-4-20250514-extended-thinking-long-context-window-preview''))
             None None None (u ''full'')) = 79"
  by (simp add: formatResponseWithVerbosity_def Let_def truthyStr_def templateStr_def
      getModelEmoji_def EMOJI_MODEL_HA_def EMOJI_MODEL_SONNET_def includesStr_def sublist_code
      toLowerCase_def lowerUnit_def)

section \<open>Properties of the reaction handler\<close>

lemma verbosity_emoji_cases:
  "isVerbosityEmoji e \<Longrightarrow> e \<noteq> [] \<and> (\<exists>v. getVerbosityFromEmoji e = Some v)"
  by (auto simp: isVerbosityEmoji_def getVerbosityFromEmoji_def EMOJI_VERBOSITY_MINIMAL_def
      EMOJI_VERBOSITY_MEDIUM_def EMOJI_VERBOSITY_FULL_def)

lemma isVerbosityEventD:
  "isVerbosityEvent r \<Longrightarrow>
     \<exists>nr e v. new_reaction r = Some nr \<and> rt_type nr = u ''emoji'' \<and> rt_emoji nr = Some e \<and>
       e \<noteq> [] \<and> isVerbosityEmoji e \<and> getVerbosityFromEmoji e = Some v"
  by (auto simp: isVerbosityEvent_def simp del: list.map dest: verbosity_emoji_cases
      split: option.splits)

lemma handleReaction_verbosity:
  assumes "isVerbosityEvent r"
  shows "handleReaction tr r (st, botLog) now =
     (case map_of (messages st) (numberToString (message_id r)) of
        None \<Rightarrow> (st, botLog)
      | Some rec \<Rightarrow>
          if now > expiresAt rec
          then (st\<lparr>messages := AList.delete (numberToString (message_id r)) (messages st)\<rparr>, botLog)
          else (st\<lparr>messages := AList.update (numberToString (message_id r))
                                  (rec\<lparr>md_verbosity := Some (verbosityOf r)\<rparr>) (messages st)\<rparr>,
                botLog @ [EditMessageText (md_chatId rec) (message_id r) (renderText rec (verbosityOf r)),
                          SetMessageReaction (md_chatId rec) (message_id r)
                            (getReactionsForVerbosity (verbosityOf r))]))"
proof -
  from isVerbosityEventD [OF assms] obtain nr e v where
    ev: "new_reaction r = Some nr" "rt_type nr = u ''emoji''" "rt_emoji nr = Some e"
        "e \<noteq> []" "isVerbosityEmoji e" "getVerbosityFromEmoji e = Some v" by blast
  then have v: "verbosityOf r = v" by (simp add: verbosityOf_def)
  show ?thesis
  proof (cases "map_of (messages st) (numberToString (message_id r))")
    case None
    with ev show ?thesis
      by (simp add: handleReaction_def MessageMetadataStore_get_def del: list.map)
  next
    case (Some rec)
    show ?thesis
    proof (cases "now > expiresAt rec")
      case True
      with Some ev show ?thesis
        by (simp add: handleReaction_def MessageMetadataStore_get_def del: list.map)
    next
      case False
      with Some ev v show ?thesis
        by (simp add: handleReaction_def MessageMetadataStore_get_def changeVerbosity_def
            MessageMetadataStore_update_def renderText_def Let_def del: list.map)
    qed
  qed
qed


lemma editsOf_append: "editsOf (a @ b) mid = editsOf a mid @ editsOf b mid"
  by (simp add: editsOf_def)

lemma renderedContent_after_edit:
  "renderedContent (botLog @ [EditMessageText chat mid txt, SetMessageReaction chat mid rs]) mid = Some txt"
  by (simp add: renderedContent_def editsOf_append) (simp add: editsOf_def)

lemma renderText_verbosity [simp]:
  "renderText (rec\<lparr>md_verbosity := v\<rparr>) w = renderText rec w"
  by (simp add: renderText_def)

lemma handleReaction_absent:
  assumes "map_of (messages st) (numberToString (message_id r)) = None"
  shows "handleReaction tr r (st, botLog) now = (st, botLog)"
  using assms
  by (simp add: handleReaction_def MessageMetadataStore_get_def Let_def del: list.map
      split: option.split)

text \<open>
  Claim C3. For a verbosity event, a second delivery leaves the same rendered content of
  the message as the first one did, and the same stored verbosity as every later lookup
  of the record reads it; while the record has not expired at the second delivery the
  whole store is the same. For every event, the handler changes nothing and issues no
  call when the store has no record for the message id of the event.
\<close>

theorem reaction_idempotent:
  "(isVerbosityEvent r \<longrightarrow>
      renderedContent (snd (handleReaction tr r (handleReaction tr r (st, botLog) t1) t2)) (message_id r)
        = renderedContent (snd (handleReaction tr r (st, botLog) t1)) (message_id r) \<and>
      (t2 \<le> t3 \<longrightarrow>
         storedVerbosity (fst (handleReaction tr r (handleReaction tr r (st, botLog) t1) t2))
             (message_id r) t3
           = storedVerbosity (fst (handleReaction tr r (st, botLog) t1)) (message_id r) t3) \<and>
      (fst (MessageMetadataStore_get (fst (handleReaction tr r (st, botLog) t1)) (message_id r) t2) \<noteq> None \<longrightarrow>
         fst (handleReaction tr r (handleReaction tr r (st, botLog) t1) t2)
           = fst (handleReaction tr r (st, botLog) t1))) \<and>
   (map_of (messages st) (numberToString (message_id r)) = None \<longrightarrow>
      handleReaction tr r (st, botLog) t1 = (st, botLog))"
proof (intro conjI impI)
  assume "map_of (messages st) (numberToString (message_id r)) = None"
  then show "handleReaction tr r (st, botLog) t1 = (st, botLog)"
    by (rule handleReaction_absent)
next
  assume ev: "isVerbosityEvent r"
  let ?k = "numberToString (message_id r)"
  let ?once = "handleReaction tr r (st, botLog) t1"
  let ?twice = "handleReaction tr r ?once t2"
  note hr = handleReaction_verbosity [OF ev]
  have twice_eq: "?twice = handleReaction tr r (fst ?once, snd ?once) t2" by simp
  consider (absent) "map_of (messages st) ?k = None"
    | (expired) rec where "map_of (messages st) ?k = Some rec" "t1 > expiresAt rec"
    | (live) rec where "map_of (messages st) ?k = Some rec" "t1 \<le> expiresAt rec"
    by (cases "map_of (messages st) ?k") force+
  then have main:
    "renderedContent (snd ?twice) (message_id r) = renderedContent (snd ?once) (message_id r) \<and>
     (t2 \<le> t3 \<longrightarrow> storedVerbosity (fst ?twice) (message_id r) t3
                      = storedVerbosity (fst ?once) (message_id r) t3) \<and>
     (fst (MessageMetadataStore_get (fst ?once) (message_id r) t2) \<noteq> None \<longrightarrow> fst ?twice = fst ?once)"
  proof cases
    case absent
    then have o: "?once = (st, botLog)" by (simp add: hr)
    with absent have "?twice = (st, botLog)" by (simp add: hr)
    with o show ?thesis by simp
  next
    case expired
    let ?st1 = "st\<lparr>messages := AList.delete ?k (messages st)\<rparr>"
    from expired have o: "?once = (?st1, botLog)" by (simp add: hr)
    have "map_of (messages ?st1) ?k = None" by (simp add: delete_conv')
    then have "handleReaction tr r (?st1, botLog) t2 = (?st1, botLog)" by (simp add: hr)
    with o have "?twice = ?once" by simp
    then show ?thesis by simp
  next
    case live
    let ?v = "verbosityOf r"
    let ?rec' = "rec\<lparr>md_verbosity := Some ?v\<rparr>"
    let ?st1 = "st\<lparr>messages := AList.update ?k ?rec' (messages st)\<rparr>"
    let ?calls = "[EditMessageText (md_chatId rec) (message_id r) (renderText rec ?v),
                   SetMessageReaction (md_chatId rec) (message_id r) (getReactionsForVerbosity ?v)]"
    from live have o: "?once = (?st1, botLog @ ?calls)" by (simp add: hr)
    have look: "map_of (messages ?st1) ?k = Some ?rec'" by (simp add: update_conv')
    have rc1: "renderedContent (snd ?once) (message_id r) = Some (renderText rec ?v)"
      unfolding o snd_conv by (rule renderedContent_after_edit)
    show ?thesis
    proof (cases "t2 > expiresAt rec")
      case True
      let ?st2 = "?st1\<lparr>messages := AList.delete ?k (messages ?st1)\<rparr>"
      from True look have "handleReaction tr r (?st1, botLog @ ?calls) t2 = (?st2, botLog @ ?calls)"
        by (simp add: hr)
      with o have t: "?twice = (?st2, botLog @ ?calls)" by simp
      have gone: "map_of (messages ?st2) ?k = None" by (simp add: delete_conv')
      have a: "renderedContent (snd ?twice) (message_id r) = renderedContent (snd ?once) (message_id r)"
        by (simp only: t snd_conv) (simp add: o)
      have b: "storedVerbosity (fst ?twice) (message_id r) t3
          = storedVerbosity (fst ?once) (message_id r) t3" if "t2 \<le> t3"
      proof -
        from that True have "t3 > expiresAt ?rec'" by simp
        with look have "fst (MessageMetadataStore_get ?st1 (message_id r) t3) = None"
          by (simp add: MessageMetadataStore_get_def)
        moreover from gone have "fst (MessageMetadataStore_get ?st2 (message_id r) t3) = None"
          by (simp add: MessageMetadataStore_get_def)
        ultimately show ?thesis
          by (simp only: t fst_conv storedVerbosity_def) (simp add: o)
      qed
      from True look have "fst (MessageMetadataStore_get ?st1 (message_id r) t2) = None"
        by (simp add: MessageMetadataStore_get_def)
      then have c: "fst (MessageMetadataStore_get (fst ?once) (message_id r) t2) = None"
        by (simp add: o)
      from a b c show ?thesis by simp
    next
      case False
      have same: "AList.update ?k (?rec'\<lparr>md_verbosity := Some ?v\<rparr>) (messages ?st1) = messages ?st1"
        by simp
      from False look have "handleReaction tr r (?st1, botLog @ ?calls) t2 =
          (?st1\<lparr>messages := AList.update ?k (?rec'\<lparr>md_verbosity := Some ?v\<rparr>) (messages ?st1)\<rparr>,
           (botLog @ ?calls) @ [EditMessageText (md_chatId ?rec') (message_id r) (renderText ?rec' ?v),
              SetMessageReaction (md_chatId ?rec') (message_id r) (getReactionsForVerbosity ?v)])"
        by (simp add: hr)
      then have "handleReaction tr r (?st1, botLog @ ?calls) t2 = (?st1, (botLog @ ?calls) @ ?calls)"
        unfolding same by simp
      with o have t: "?twice = (?st1, (botLog @ ?calls) @ ?calls)" by simp
      have "renderedContent (snd ?twice) (message_id r) = Some (renderText rec ?v)"
        unfolding t snd_conv by (rule renderedContent_after_edit)
      with rc1 have a: "renderedContent (snd ?twice) (message_id r)
          = renderedContent (snd ?once) (message_id r)" by simp
      have "fst ?twice = fst ?once" by (simp only: t fst_conv) (simp add: o)
      with a show ?thesis by simp
    qed
  qed
  from main show "renderedContent (snd ?twice) (message_id r) = renderedContent (snd ?once) (message_id r)"
    by blast
  from main show "storedVerbosity (fst ?twice) (message_id r) t3
      = storedVerbosity (fst ?once) (message_id r) t3" if "t2 \<le> t3"
    using that by blast
  from main show "fst ?twice = fst ?once"
    if "fst (MessageMetadataStore_get (fst ?once) (message_id r) t2) \<noteq> None"
    using that by blast
qed


lemma minimalEvent_props:
  "isVerbosityEvent minimalEvent" "message_id minimalEvent = 42"
  "verbosityOf minimalEvent = u ''minimal''"
  by (simp_all add: isVerbosityEvent_def minimalEvent_def emojiReaction_def isVerbosityEmoji_def
      verbosityOf_def getVerbosityFromEmoji_def)

lemma exampleStore_lookup:
  "map_of (messages exampleStore) (numberToString 42)
     = Some (exampleMetadata\<lparr>createdAt := 1000, expiresAt := 3601001\<rparr>)"
  by (simp add: exampleStore_def numberToString_def natToString.simps)

lemma exampleMetadata_text: "renderText (exampleMetadata\<lparr>createdAt := a, expiresAt := b\<rparr>) (u ''minimal'') = u ''Looks good.''"
  by (simp add: renderText_def exampleMetadata_def truthyStr_def formatResponseWithVerbosity_def
      templateStr_def)

theorem reaction_idempotent_witness:
  "renderedContent
     (snd (handleReaction (\<lambda>c. False) minimalEvent
             (handleReaction (\<lambda>c. False) minimalEvent (exampleStore, []) 2000) 3000)) 42
     = Some (u ''Looks good.'') \<and>
   storedVerbosity
     (fst (handleReaction (\<lambda>c. False) minimalEvent
             (handleReaction (\<lambda>c. False) minimalEvent (exampleStore, []) 2000) 3000)) 42 4000
     = Some (u ''minimal'') \<and>
   handleReaction (\<lambda>c. False) minimalEvent (newMessageMetadataStore, []) 2000
     = (newMessageMetadataStore, [])"
proof -
  let ?tr = "\<lambda>c::botCall. False"
  let ?rec = "exampleMetadata\<lparr>createdAt := 1000, expiresAt := 3601001\<rparr>"
  let ?st1 = "exampleStore\<lparr>messages := AList.update (numberToString 42)
                (?rec\<lparr>md_verbosity := Some (u ''minimal'')\<rparr>) (messages exampleStore)\<rparr>"
  have once: "handleReaction ?tr minimalEvent (exampleStore, []) 2000 =
      (?st1, [EditMessageText (md_chatId ?rec) 42 (renderText ?rec (u ''minimal'')),
              SetMessageReaction (md_chatId ?rec) 42 (getReactionsForVerbosity (u ''minimal''))])"
    unfolding handleReaction_verbosity [OF minimalEvent_props(1)] minimalEvent_props(2,3)
      exampleStore_lookup
    by (simp del: list.map)
  have rc: "renderedContent (snd (handleReaction ?tr minimalEvent (exampleStore, []) 2000)) 42
      = Some (u ''Looks good.'')"
    unfolding once snd_conv
    using renderedContent_after_edit [of "[]" "md_chatId ?rec" 42 "renderText ?rec (u ''minimal'')"
        "getReactionsForVerbosity (u ''minimal'')"]
    by (simp only: append_Nil exampleMetadata_text)
  have look1: "map_of (messages ?st1) (numberToString 42) = Some (?rec\<lparr>md_verbosity := Some (u ''minimal'')\<rparr>)"
    by (simp add: update_conv' del: list.map)
  have sv: "storedVerbosity (fst (handleReaction ?tr minimalEvent (exampleStore, []) 2000)) 42 4000
      = Some (u ''minimal'')"
    unfolding once fst_conv storedVerbosity_def MessageMetadataStore_get_def look1
    by (simp del: list.map)
  have absent: "map_of (messages newMessageMetadataStore) (numberToString (message_id minimalEvent)) = None"
    by (simp add: newMessageMetadataStore_def)
  note th = reaction_idempotent [of minimalEvent ?tr exampleStore "[]" 2000 3000 4000,
      unfolded minimalEvent_props(2)]
  from th minimalEvent_props(1) have a:
    "renderedContent (snd (handleReaction ?tr minimalEvent
        (handleReaction ?tr minimalEvent (exampleStore, []) 2000) 3000)) 42
      = renderedContent (snd (handleReaction ?tr minimalEvent (exampleStore, []) 2000)) 42"
    by blast
  from th minimalEvent_props(1) have b:
    "storedVerbosity (fst (handleReaction ?tr minimalEvent
        (handleReaction ?tr minimalEvent (exampleStore, []) 2000) 3000)) 42 4000
      = storedVerbosity (fst (handleReaction ?tr minimalEvent (exampleStore, []) 2000)) 42 4000"
    by simp
  from reaction_idempotent [of minimalEvent ?tr newMessageMetadataStore "[]" 2000 3000 4000] absent
  have c: "handleReaction ?tr minimalEvent (newMessageMetadataStore, []) 2000 = (newMessageMetadataStore, [])"
    by blast
  from a b c rc sv show ?thesis by simp
qed

section \<open>Properties of the user prompt handler\<close>









section \<open>Properties of the session store\<close>

lemma map_of_foldl_update:
  "map_of (foldl (\<lambda>acc (k, v). AList.update (f k) (g v) acc) acc0 xs)
     = map_of acc0 ++ map_of (map (\<lambda>(k, v). (f k, g v)) (rev xs))"
proof (induction xs arbitrary: acc0)
  case Nil
  then show ?case by simp
next
  case (Cons x xs)
  obtain k v where x: "x = (k, v)" by (cases x)
  have "map_of (foldl (\<lambda>acc (k, v). AList.update (f k) (g v) acc) acc0 (x # xs))
      = map_of (AList.update (f k) (g v) acc0) ++ map_of (map (\<lambda>(k, v). (f k, g v)) (rev xs))"
    using Cons.IH [of "AList.update (f k) (g v) acc0"] by (simp add: x)
  also have "\<dots> = map_of acc0 ++ map_of (map (\<lambda>(k, v). (f k, g v)) (rev (x # xs)))"
    by (simp add: x update_conv' map_add_upd_left)
  finally show ?case .
qed

lemma distinct_foldl_update:
  "distinct (map fst acc0) \<Longrightarrow>
     distinct (map fst (foldl (\<lambda>acc (k, v). AList.update (f k) (g v) acc) acc0 xs))"
  by (induction xs arbitrary: acc0) (auto simp: distinct_update)

lemma set_ownEntries: "set (ownEntries obj) = set obj"
  by (auto simp: ownEntries_def)

lemma distinct_ownEntries:
  assumes "distinct (map fst obj)"
  shows "distinct (map fst (ownEntries obj))"
proof -
  from assms have d: "distinct obj" and inj: "inj_on fst (set obj)"
    by (simp_all add: distinct_map)
  have "distinct (ownEntries obj)"
    using d by (auto simp: ownEntries_def)
  with inj show ?thesis by (simp add: distinct_map set_ownEntries)
qed

lemma map_of_ownEntries:
  assumes "distinct (map fst obj)"
  shows "map_of (ownEntries obj) = map_of obj"
  using assms distinct_ownEntries [OF assms] set_ownEntries [of obj]
  by (simp add: map_of_inject_set)

lemma map_of_distinct_mapped:
  assumes "distinct (map (f \<circ> fst) xs)" and "(k, v) \<in> set xs"
  shows "map_of (map (\<lambda>(k, v). (f k, g v)) (rev xs)) (f k) = Some (g v)"
proof -
  have "map fst (map (\<lambda>(k, v). (f k, g v)) (rev xs)) = rev (map (f \<circ> fst) xs)"
    by (simp add: rev_map case_prod_beta comp_def)
  with assms(1) have "distinct (map fst (map (\<lambda>(k, v). (f k, g v)) (rev xs)))" by simp
  moreover from assms(2) have "(f k, g v) \<in> set (map (\<lambda>(k, v). (f k, g v)) (rev xs))" by force
  ultimately show ?thesis by (rule map_of_is_SomeI)
qed

lemma toPlainObject_plain:
  assumes "\<forall>p \<in> set cache. propertyName (fst p) \<noteq> u ''__proto__''"
  shows "toPlainObject cache = foldl (\<lambda>acc (k, v). AList.update (propertyName k) v acc) [] cache"
  unfolding toPlainObject_def
  using assms by (intro foldl_cong) (auto simp del: list.map)

lemma restoreEntries_complete:
  "\<forall>p \<in> set entries. snd p \<noteq> None \<Longrightarrow>
     restoreEntries nowIso cache entries =
       (foldl (\<lambda>cache (userId, sessionData).
                 AList.update (StrId userId) (restoreSession nowIso (the sessionData)) cache)
          cache entries, True)"
  by (induction nowIso cache entries rule: restoreEntries.induct) simp_all

lemma restoreEntries_null:
  "restoreEntries nowIso cache (entries @ (userId, None) # rest) =
     (fst (restoreEntries nowIso cache entries),
      False)" if "\<forall>p \<in> set entries. snd p \<noteq> None"
  using that by (induction nowIso cache entries rule: restoreEntries.induct) simp_all

text \<open>
  The failures of \<open>loadSessions\<close> and the table each leaves behind: a text that does not
  parse leaves the table as it was; the text \<open>null\<close> leaves it empty; an entry that is
  \<open>null\<close> leaves it with the entries before that one.
\<close>

lemma loadSessions_failures:
  assumes "readable fs"
  shows "sessionFile fs = Some Garbled \<Longrightarrow>
           loadSessions (store, fs) nowIso = Inl (ParseError, (store, fs))"
    and "sessionFile fs = Some JsonNull \<Longrightarrow>
           loadSessions (store, fs) nowIso = Inl (TypeError, (store\<lparr>sessionsCache := []\<rparr>, fs))"
    and "sessionFile fs = Some (JsonObject parsed) \<Longrightarrow>
         ownEntries parsed = entries @ (userId, None) # rest \<Longrightarrow>
         \<forall>p \<in> set entries. snd p \<noteq> None \<Longrightarrow>
           loadSessions (store, fs) nowIso =
             Inl (TypeError, (store\<lparr>sessionsCache := fst (restoreEntries nowIso [] entries)\<rparr>, fs))"
  using assms by (simp_all add: loadSessions_def restoreEntries_null)

lemma session_roundtrip_by_name:
  assumes names: "distinct (map (propertyName \<circ> fst) (sessionsCache store))"
    and proto: "\<forall>p \<in> set (sessionsCache store). propertyName (fst p) \<noteq> u ''__proto__''"
    and io: "readable fs" "writable fs"
  shows "\<exists>store' fs'. saveThenLoad (store, fs) now nowIso = Inr (store', fs') \<and>
           (\<forall>k s. (k, s) \<in> set (sessionsCache store) \<longrightarrow>
              getSession store' (StrId (propertyName k)) = Some (restoreSession nowIso s))"
proof -
  let ?plain = "toPlainObject (sessionsCache store)"
  let ?file = "map (\<lambda>(userId, sessionData). (userId, Some sessionData)) (ownEntries ?plain)"
  let ?cache' = "foldl (\<lambda>cache (userId, sessionData).
                   AList.update (StrId userId) (restoreSession nowIso (the sessionData)) cache)
                   [] (ownEntries ?file)"
  let ?fs1 = "(if sessionFile fs \<noteq> None \<and> readable fs \<and> writable fs
               then fs\<lparr>backupFile := sessionFile fs\<rparr> else fs)"
  have w: "writable ?fs1" "readable ?fs1" using io by simp_all
  have save: "saveSessions (store, fs) now =
      Inr (store\<lparr>lastSaveTime := now\<rparr>, ?fs1\<lparr>sessionFile := Some (JsonObject ?file)\<rparr>)"
    using w by (simp add: saveSessions_def Let_def)
  have "\<forall>p \<in> set (ownEntries ?file). snd p \<noteq> None"
    by (auto simp: set_ownEntries)
  then have entries: "restoreEntries nowIso [] (ownEntries ?file) = (?cache', True)"
    by (rule restoreEntries_complete)
  have load: "saveThenLoad (store, fs) now nowIso =
      Inr (store\<lparr>lastSaveTime := now, sessionsCache := ?cache'\<rparr>, ?fs1\<lparr>sessionFile := Some (JsonObject ?file)\<rparr>)"
    unfolding saveThenLoad_def save sum.case using w by (simp add: loadSessions_def entries)
  have dplain: "distinct (map fst ?plain)"
    unfolding toPlainObject_plain [OF proto]
    using distinct_foldl_update [of "[]" propertyName "\<lambda>v. v" "sessionsCache store"] by simp
  have mplain: "map_of ?plain = map_of (map (\<lambda>(k, v). (propertyName k, v)) (rev (sessionsCache store)))"
    unfolding toPlainObject_plain [OF proto]
    using map_of_foldl_update [of propertyName "\<lambda>v. v" "[]" "sessionsCache store"] by simp
  have mf: "map fst ?file = map fst (ownEntries ?plain)" by (simp add: case_prod_beta comp_def)
  have dfile: "distinct (map fst ?file)"
    unfolding mf using dplain by (rule distinct_ownEntries)
  have dfile2: "distinct (map fst (ownEntries ?file))" using dfile by (rule distinct_ownEntries)
  have mcache: "map_of ?cache' =
      map_of (map (\<lambda>(k, v). (StrId k, restoreSession nowIso (the v))) (rev (ownEntries ?file)))"
    using map_of_foldl_update [of StrId "\<lambda>v. restoreSession nowIso (the v)" "[]" "ownEntries ?file"]
    by simp
  have found: "getSession (store\<lparr>lastSaveTime := now, sessionsCache := ?cache'\<rparr>) (StrId (propertyName k))
      = Some (restoreSession nowIso s)" if ks: "(k, s) \<in> set (sessionsCache store)" for k s
  proof -
    from names ks have "map_of ?plain (propertyName k) = Some s"
      unfolding mplain using map_of_distinct_mapped [of propertyName "sessionsCache store" k s "\<lambda>v. v"]
      by simp
    then have "(propertyName k, s) \<in> set ?plain" by (rule map_of_SomeD)
    then have "(propertyName k, Some s) \<in> set ?file" by (force simp: set_ownEntries)
    then have mem: "(propertyName k, Some s) \<in> set (ownEntries ?file)" by (simp add: set_ownEntries)
    have "inj StrId" by (simp add: inj_def)
    with dfile2 have "distinct (map (StrId \<circ> fst) (ownEntries ?file))"
      by (simp add: distinct_map inj_on_def comp_def)
    from map_of_distinct_mapped [OF this mem, of "\<lambda>v. restoreSession nowIso (the v)"]
    show ?thesis by (simp add: getSession_def mcache)
  qed
  from load found show ?thesis by blast
qed

lemma restoreSession_keeps:
  "history s = Some h \<Longrightarrow> history (restoreSession nowIso s) = Some h"
  "turnCount s = Some n \<Longrightarrow> turnCount (restoreSession nowIso s) = Some n"
  by (simp_all add: restoreSession_def truthyNum_def numOf_def)

lemma key_12345: "numberToString 12345 = u ''12345''"
  by (simp add: numberToString_def natToString.simps)

lemma isArrayIndex_12345: "isArrayIndex (u ''12345'')"
  by (simp add: isArrayIndex_def parseNat_def)

lemma plain: "toPlainObject (sessionsCache exampleSessions) = [(u ''12345'', exampleSession)]"
  by (simp add: toPlainObject_def exampleSessions_def propertyName_def key_12345 del: list.map)

lemma own1: "ownEntries [(u ''12345'', x)] = [(u ''12345'', x)]"
  using isArrayIndex_12345 by (simp add: ownEntries_def del: list.map)

lemma restore_example: "restoreSession t exampleSession = exampleSession"
  by (simp add: restoreSession_def exampleSession_def truthyNum_def numOf_def truthyStr_def templateStr_def)

lemma file1:
  "map (\<lambda>(userId, sessionData). (userId, Some sessionData)) [(u ''12345'', exampleSession)]
     = [(u ''12345'', Some exampleSession)]"
  by simp

lemma example_save:
  "saveSessions (exampleSessions, emptyDisk) 5000 =
     Inr (exampleSessions\<lparr>lastSaveTime := 5000\<rparr>,
          emptyDisk\<lparr>sessionFile := Some (JsonObject [(u ''12345'', Some exampleSession)])\<rparr>)"
  unfolding saveSessions_def prod.case Let_def plain own1 file1
  by (simp add: emptyDisk_def del: list.map)

lemma example_roundtrip:
  "saveThenLoad (exampleSessions, emptyDisk) 5000 (u ''2026-01-02T00:00:00.000Z'') =
     Inr (\<lparr>sessionsCache = [(StrId (u ''12345''), exampleSession)], lastSaveTime = 5000\<rparr>,
          emptyDisk\<lparr>sessionFile := Some (JsonObject [(u ''12345'', Some exampleSession)])\<rparr>)"
  unfolding saveThenLoad_def example_save sum.case loadSessions_def prod.case
  by (simp add: emptyDisk_def own1 restore_example exampleSessions_def del: list.map)

text \<open>
  Claim C4. Saving the session table and loading it again should give back, for each user
  id, the history and the turn counter that were saved. The bot keys the table by the
  chat id, a number; the file is keyed by its decimal string, and so is the table that is
  loaded from it. After a save and a load the session of chat 12345 is found under the
  string, with its history and counter as saved, but not under the number the bot looks
  it up with.
\<close>

theorem session_lost_for_numeric_id:
  "getSession exampleSessions (NumId 12345) = Some exampleSession \<and>
   (\<exists>store fs. saveThenLoad (exampleSessions, emptyDisk) 5000 (u ''2026-01-02T00:00:00.000Z'') = Inr (store, fs) \<and>
      getSession store (NumId 12345) = None \<and>
      getSession store (StrId (u ''12345'')) = Some exampleSession)"
  unfolding example_roundtrip
  by (simp add: getSession_def exampleSessions_def del: list.map)

end
